theory Spec2Isabelle
  imports Main "HOL-Library.Word"
begin

section \<open>Data model of the NachOS thread core\<close>

text \<open>
  A thread object lives at an address; a pointer to a thread is an address, and a pointer
  that may be NULL is an optional address. The store maps every address to the object
  held there (deallocation is not tracked).
\<close>

type_synonym tid = nat

datatype ThreadStatus = JUST_CREATED | RUNNING | READY | BLOCKED

datatype IntStatus = IntOff | IntOn

text \<open>The host architectures that \<open>CreateThreadStack\<close> distinguishes by conditional compilation.\<close>

datatype host = HOST_SNAKE | HOST_SPARC | HOST_MIPS | HOST_i386

text \<open>
  Code addresses: the three routines of thread.cc that are stored into a saved context,
  and the forked procedures.
\<close>

datatype VoidFunctionPtr = ThreadRoot | InterruptEnable | ThreadFinish | Func nat

text \<open>An int-sized memory cell holds a 32-bit number or a code address cast to int.\<close>

datatype cell = Val "32 word" | Code VoidFunctionPtr

text \<open>The slots of \<open>machineState\<close>: the five named in thread.cc, and all others.\<close>

datatype reg = PCState | StartupPCState | InitialPCState | InitialArgState
  | WhenDonePCState | OtherState nat

record NachOSThread =
  name :: string
  status :: ThreadStatus
  stackTop :: "int option"
  stack :: "cell list option"
  machineState :: "reg \<Rightarrow> cell"
  pid :: int
  ppid :: int
  parentthread :: "tid option"
  space :: "nat option"
  stateRestored :: bool
  instructionCount :: nat
  childCount :: int
  waitchildindex :: int
  child_pids :: "int list"
  childexitcode :: "int list"
  childexitstatus :: "bool list"

text \<open>
  The process-wide variables: the store of thread objects, \<open>currentThread\<close>,
  \<open>threadToBeDestroyed\<close>, the scheduler's ready list, the interrupt level and the
  static counter \<open>availpid\<close>.
\<close>

record state =
  threads :: "tid \<Rightarrow> NachOSThread"
  currentThread :: "tid option"
  threadToBeDestroyed :: "tid option"
  listOfReadyThreads :: "tid list"
  level :: IntStatus
  availpid :: int

text \<open>
  What a call does, seen from the calling thread: it returns a value; or the CPU is
  switched to another thread and the caller is suspended with the rest of the call as its
  continuation, run on the state in which the caller is resumed; or the machine halts
  (\<open>interrupt->Halt()\<close>); or an \<open>ASSERT\<close> fails; or the behaviour is undefined
  (a read or write outside an array, a NULL dereference, a signed overflow).
\<close>

datatype 'a outcome =
    Returned 'a state
  | Switched state "state \<Rightarrow> 'a outcome"
  | Halted state
  | AssertFailed
  | Undefined

primrec bind :: "'a outcome \<Rightarrow> ('a \<Rightarrow> state \<Rightarrow> 'b outcome) \<Rightarrow> 'b outcome" where
  "bind (Returned a s) f = f a s"
| "bind (Switched s k) f = Switched s (\<lambda>s2. bind (k s2) f)"
| "bind (Halted s) f = Halted s"
| "bind AssertFailed f = AssertFailed"
| "bind Undefined f = Undefined"


fun switched_state :: "'a outcome option \<Rightarrow> state option" where
  "switched_state (Some (Switched s k)) = Some s"
| "switched_state r = None"

fun returned_state :: "'a outcome option \<Rightarrow> state option" where
  "returned_state (Some (Returned a s)) = Some s"
| "returned_state r = None"

text \<open>Reading and writing a C array at an int index; \<open>None\<close> outside the bounds.\<close>

definition arr_get :: "'a list \<Rightarrow> int \<Rightarrow> 'a option" where
  "arr_get xs i = (if 0 \<le> i \<and> i < int (length xs) then Some (xs ! nat i) else None)"

definition arr_set :: "'a list \<Rightarrow> int \<Rightarrow> 'a \<Rightarrow> 'a list option" where
  "arr_set xs i v = (if 0 \<le> i \<and> i < int (length xs) then Some (xs[nat i := v]) else None)"

definition upd_thread :: "state \<Rightarrow> tid \<Rightarrow> (NachOSThread \<Rightarrow> NachOSThread) \<Rightarrow> state" where
  "upd_thread s t f = s\<lparr>threads := (threads s)(t := f (threads s t))\<rparr>"

section \<open>The scheduler's primitives\<close>

text \<open>
  Modelled from the spec: scheduler.cc is not among the sources (scheduler.h only
  declares the operations). \<open>MoveThreadToReadyQueue\<close> is the spec's enqueueReady:
  it appends to the ready queue tail and sets the status Ready.
\<close>

definition MoveThreadToReadyQueue :: "state \<Rightarrow> tid \<Rightarrow> state" where
  "MoveThreadToReadyQueue s t =
     (upd_thread s t (\<lambda>th. th\<lparr>status := READY\<rparr>))
       \<lparr>listOfReadyThreads := listOfReadyThreads s @ [t]\<rparr>"

text \<open>
  Modelled from the spec: \<open>SelectNextReadyThread\<close> is the spec's dequeueReady:
  it removes and returns the head of the ready queue, or none (NULL) if it is empty.
\<close>

definition SelectNextReadyThread :: "state \<Rightarrow> tid option \<times> state" where
  "SelectNextReadyThread s =
     (case listOfReadyThreads s of
        [] \<Rightarrow> (None, s)
      | t # q \<Rightarrow> (Some t, s\<lparr>listOfReadyThreads := q\<rparr>))"

text \<open>A sequence of operations on the ready queue, and the threads its dequeues return.\<close>

datatype queue_op = Enqueue tid | Dequeue

fun run_queue :: "state \<Rightarrow> queue_op list \<Rightarrow> tid list \<times> state" where
  "run_queue s [] = ([], s)"
| "run_queue s (Enqueue t # ops) = run_queue (MoveThreadToReadyQueue s t) ops"
| "run_queue s (Dequeue # ops) =
     (case SelectNextReadyThread s of
        (None, s1) \<Rightarrow> run_queue s1 ops
      | (Some t, s1) \<Rightarrow> (case run_queue s1 ops of (out, s2) \<Rightarrow> (t # out, s2)))"

fun enqueued :: "queue_op list \<Rightarrow> tid list" where
  "enqueued [] = []"
| "enqueued (Enqueue t # ops) = t # enqueued ops"
| "enqueued (Dequeue # ops) = enqueued ops"

text \<open>The number of dequeue operations of a sequence.\<close>

fun dequeues :: "queue_op list \<Rightarrow> nat" where
  "dequeues [] = 0"
| "dequeues (Enqueue t # ops) = dequeues ops"
| "dequeues (Dequeue # ops) = Suc (dequeues ops)"

text \<open>
  The number of dequeue operations of a sequence that find a thread in the queue, when
  \<open>n\<close> threads are queued at its start.
\<close>

fun served :: "nat \<Rightarrow> queue_op list \<Rightarrow> nat" where
  "served n [] = 0"
| "served n (Enqueue t # ops) = served (Suc n) ops"
| "served 0 (Dequeue # ops) = served 0 ops"
| "served (Suc n) (Dequeue # ops) = Suc (served n ops)"

section \<open>The interrupt level, assertions and the destructor\<close>

text \<open>
  Modelled from the spec: interrupt.cc is not among the sources. \<open>SetLevel\<close> is the
  spec's disable()/restore(level) bracket: it sets the level and returns the old one.
\<close>

definition SetLevel :: "state \<Rightarrow> IntStatus \<Rightarrow> IntStatus \<times> state" where
  "SetLevel s l = (level s, s\<lparr>level := l\<rparr>)"

text \<open>
  \<open>NachOSThread::~NachOSThread\<close>: \<open>ASSERT(this != currentThread)\<close>, then the
  stack, if any, is given back to the allocator (which the store does not track).
\<close>

definition NachOSThread_dtor :: "state \<Rightarrow> tid \<Rightarrow> unit outcome" where
  "NachOSThread_dtor s t =
     (if currentThread s = Some t then AssertFailed else Returned () s)"

text \<open>
  \<open>NachOSThread::RestoreUserState\<close>: the user registers are written to the machine
  emulator, which is outside the state; the flag \<open>stateRestored\<close> is set.
\<close>

definition RestoreUserState :: "state \<Rightarrow> tid \<Rightarrow> state" where
  "RestoreUserState s t = upd_thread s t (\<lambda>th. th\<lparr>stateRestored := True\<rparr>)"

text \<open>
  Modelled from the spec: \<open>ScheduleThread\<close> is the spec's switchTo (scheduler.cc is
  not among the sources). It sets the incoming thread's status Running, updates the
  current-thread pointer and transfers control. \<open>ScheduleThread_resumed\<close> is what the
  call does once control comes back to the suspended caller: if a thread is pending
  destruction it is destroyed and the pending slot cleared; if the current thread owns an
  address space, its state is restored.
\<close>

definition ScheduleThread_resumed :: "state \<Rightarrow> unit outcome" where
  "ScheduleThread_resumed s =
     bind (case threadToBeDestroyed s of
             None \<Rightarrow> Returned () s
           | Some z \<Rightarrow> bind (NachOSThread_dtor s z)
                        (\<lambda>u s1. Returned () (s1\<lparr>threadToBeDestroyed := None\<rparr>)))
       (\<lambda>u s1. case currentThread s1 of
                  None \<Rightarrow> Undefined
                | Some c \<Rightarrow>
                    if space (threads s1 c) \<noteq> None then Returned () (RestoreUserState s1 c)
                    else Returned () s1)"

definition ScheduleThread :: "state \<Rightarrow> tid \<Rightarrow> unit outcome" where
  "ScheduleThread s nextThread =
     Switched ((upd_thread s nextThread (\<lambda>th. th\<lparr>status := RUNNING\<rparr>))
                 \<lparr>currentThread := Some nextThread\<rparr>)
       ScheduleThread_resumed"

section \<open>Yield, sleep and finish\<close>

text \<open>
  \<open>NachOSThread::YieldCPU\<close>. \<open>YieldCPU_resumed\<close> is the statement after the call of
  \<open>ScheduleThread\<close>, which also ends the branch that did not switch.
\<close>

definition YieldCPU_resumed :: "IntStatus \<Rightarrow> unit \<Rightarrow> state \<Rightarrow> unit outcome" where
  "YieldCPU_resumed oldLevel u s = Returned () (snd (SetLevel s oldLevel))"

definition YieldCPU :: "state \<Rightarrow> tid \<Rightarrow> unit outcome" where
  "YieldCPU s t =
     (case SetLevel s IntOff of
        (oldLevel, s1) \<Rightarrow>
          if currentThread s1 \<noteq> Some t then AssertFailed
          else (case SelectNextReadyThread s1 of
                  (None, s2) \<Rightarrow> YieldCPU_resumed oldLevel () s2
                | (Some nextThread, s2) \<Rightarrow>
                    bind (ScheduleThread (MoveThreadToReadyQueue s2 t) nextThread)
                      (YieldCPU_resumed oldLevel)))"

text \<open>
  The loop of \<open>PutThreadToSleep\<close>: while no thread is ready, \<open>interrupt->Idle()\<close>.
  The interrupt subsystem is an external collaborator: \<open>Idle\<close> is a parameter, the
  effect on the state of the handlers of the external event that ends one idle-wait.
  The loop runs forever (\<open>None\<close>) if no event ever makes a thread ready.
\<close>

partial_function (option) PutThreadToSleep_loop ::
  "(state \<Rightarrow> state) \<Rightarrow> state \<Rightarrow> (tid \<times> state) option" where
  "PutThreadToSleep_loop Idle s =
     (case SelectNextReadyThread s of
        (Some nextThread, s1) \<Rightarrow> Some (nextThread, s1)
      | (None, s1) \<Rightarrow> PutThreadToSleep_loop Idle (Idle s1))"

definition PutThreadToSleep ::
  "(state \<Rightarrow> state) \<Rightarrow> state \<Rightarrow> tid \<Rightarrow> unit outcome option" where
  "PutThreadToSleep Idle s t =
     (if currentThread s \<noteq> Some t then Some AssertFailed
      else if level s \<noteq> IntOff then Some AssertFailed
      else (case PutThreadToSleep_loop Idle (upd_thread s t (\<lambda>th. th\<lparr>status := BLOCKED\<rparr>)) of
              None \<Rightarrow> None
            | Some (nextThread, s1) \<Rightarrow> Some (ScheduleThread s1 nextThread)))"



section \<open>The execution stack\<close>

definition STACK_FENCEPOST :: "32 word" where
  "STACK_FENCEPOST = 0xdeadbeef"

text \<open>
  Modelled from the spec: \<open>AllocBoundedArray\<close> (not among the sources) allocates the
  stack of fixed size; its cells hold whatever the memory held, \<open>garbage\<close>.
\<close>

definition AllocBoundedArray :: "(nat \<Rightarrow> cell) \<Rightarrow> nat \<Rightarrow> cell list" where
  "AllocBoundedArray garbage n = map garbage [0..<n]"

text \<open>A pointer into an array of \<open>n\<close> cells, or one past its end.\<close>

definition ptr_ok :: "nat \<Rightarrow> int \<Rightarrow> bool" where
  "ptr_ok n off = (0 \<le> off \<and> off \<le> int n)"

text \<open>
  The architecture-dependent part of \<open>CreateThreadStack\<close>: the initial stack pointer
  (an offset into the stack) and the stack with the fencepost written.
  \<open>StackSize\<close>, a constant of thread.h, is a parameter.
\<close>

definition init_stack :: "host \<Rightarrow> nat \<Rightarrow> cell list \<Rightarrow> (int \<times> cell list) option" where
  "init_stack h StackSize st =
     (case h of
        HOST_SNAKE \<Rightarrow>
          if ptr_ok StackSize 16 then
            map_option (\<lambda>st1. (16, st1)) (arr_set st (int StackSize - 1) (Val STACK_FENCEPOST))
          else None
      | HOST_SPARC \<Rightarrow>
          if ptr_ok StackSize (int StackSize - 96) then
            map_option (\<lambda>st1. (int StackSize - 96, st1)) (arr_set st 0 (Val STACK_FENCEPOST))
          else None
      | HOST_MIPS \<Rightarrow>
          if ptr_ok StackSize (int StackSize - 4) then
            map_option (\<lambda>st1. (int StackSize - 4, st1)) (arr_set st 0 (Val STACK_FENCEPOST))
          else None
      | HOST_i386 \<Rightarrow>
          if ptr_ok StackSize (int StackSize - 4) then
            (case arr_set st (int StackSize - 4 - 1) (Code ThreadRoot) of
               None \<Rightarrow> None
             | Some st1 \<Rightarrow>
                 map_option (\<lambda>st2. (int StackSize - 4 - 1, st2))
                   (arr_set st1 0 (Val STACK_FENCEPOST)))
          else None)"

definition CreateThreadStack ::
  "host \<Rightarrow> nat \<Rightarrow> (nat \<Rightarrow> cell) \<Rightarrow> state \<Rightarrow> tid \<Rightarrow> VoidFunctionPtr \<Rightarrow> 32 word \<Rightarrow> unit outcome" where
  "CreateThreadStack h StackSize garbage s t func arg =
     (case init_stack h StackSize (AllocBoundedArray garbage StackSize) of
        None \<Rightarrow> Undefined
      | Some (sp, st) \<Rightarrow>
          Returned () (upd_thread s t (\<lambda>th. th
            \<lparr>stack := Some st,
             stackTop := Some sp,
             machineState := (machineState th)
               (PCState := Code ThreadRoot,
                StartupPCState := Code InterruptEnable,
                InitialPCState := Code func,
                InitialArgState := Val arg,
                WhenDonePCState := Code ThreadFinish)\<rparr>)))"

text \<open>
  The direction in which the stack grows, as the comments of \<open>CreateThreadStack\<close>
  give it: from low addresses to high addresses on \<open>HOST_SNAKE\<close>, from high
  addresses to low addresses on the others.
\<close>

definition grows_upward :: "host \<Rightarrow> bool" where
  "grows_upward h = (h = HOST_SNAKE)"

text \<open>
  The two ends of a stack of \<open>StackSize\<close> cells: the end it grows toward, which an
  overflow reaches first, and the opposite end, where it starts.
\<close>

definition stack_limit :: "host \<Rightarrow> nat \<Rightarrow> nat" where
  "stack_limit h StackSize = (if grows_upward h then StackSize - 1 else 0)"

definition stack_origin :: "host \<Rightarrow> nat \<Rightarrow> nat" where
  "stack_origin h StackSize = (if grows_upward h then 0 else StackSize - 1)"

section \<open>Process bookkeeping\<close>

text \<open>
  Modelled from the spec: \<open>MAXCHILDCOUNT\<close>, a constant of thread.h (not among the
  sources), is the fixed capacity of the child tables; the spec gives 32 as its value.
\<close>

definition MAXCHILDCOUNT :: nat where
  "MAXCHILDCOUNT = 32"

text \<open>
  The constructor, with process semantics (\<open>USER_PROGRAM\<close>), of the object at address
  \<open>a\<close>. The fields it does not assign keep what the memory held. \<open>availpid++\<close> on
  the largest int is a signed overflow.
\<close>

definition NachOSThread_ctor :: "state \<Rightarrow> tid \<Rightarrow> string \<Rightarrow> unit outcome" where
  "NachOSThread_ctor s a threadName =
     (let s1 = upd_thread s a (\<lambda>th. th
                 \<lparr>name := threadName, stackTop := None, stack := None,
                  status := JUST_CREATED, pid := availpid s\<rparr>)
      in if availpid s1 = 2147483647 then Undefined
         else
           (let s2 = s1\<lparr>availpid := availpid s1 + 1\<rparr>
            in bind
                 (if pid (threads s2 a) = 1 then
                    Returned () (upd_thread s2 a (\<lambda>th. th\<lparr>ppid := 0, parentthread := None\<rparr>))
                  else
                    (case currentThread s2 of
                       None \<Rightarrow> Undefined
                     | Some c \<Rightarrow>
                         Returned () (upd_thread s2 a (\<lambda>th. th
                           \<lparr>ppid := pid (threads s2 c), parentthread := Some c\<rparr>))))
                 (\<lambda>u s3. Returned () (upd_thread s3 a (\<lambda>th. th
                    \<lparr>space := None, stateRestored := True, instructionCount := 0,
                     childCount := 0, waitchildindex := - 1,
                     childexitstatus :=
                       fold (\<lambda>i xs. xs[i := False]) [0..<MAXCHILDCOUNT] (childexitstatus th)\<rparr>)))))"

text \<open>
  A sequence of constructions, each of a thread at address \<open>a\<close> while \<open>cur\<close> is the
  current thread; the result lists the state after each construction.
\<close>

fun construct_all :: "state \<Rightarrow> (tid option \<times> tid \<times> string) list \<Rightarrow> state list outcome" where
  "construct_all s [] = Returned [] s"
| "construct_all s ((cur, a, nm) # rest) =
     bind (NachOSThread_ctor (s\<lparr>currentThread := cur\<rparr>) a nm)
       (\<lambda>u s1. bind (construct_all s1 rest) (\<lambda>ss s2. Returned (s1 # ss) s2))"

text \<open>\<open>NachOSThread::SearchChildpid\<close>: the scan, from slot \<open>i\<close> on.\<close>

function SearchChildpid_from :: "NachOSThread \<Rightarrow> int \<Rightarrow> int \<Rightarrow> int option" where
  "SearchChildpid_from th a i =
     (if i < childCount th then
        (case arr_get (child_pids th) i of
           None \<Rightarrow> None
         | Some p \<Rightarrow> if p = a then Some i else SearchChildpid_from th a (i + 1))
      else Some (- 1))"
  by pat_completeness auto
termination
  by (relation "measure (\<lambda>(th, a, i). nat (childCount th - i))") auto

definition SearchChildpid :: "NachOSThread \<Rightarrow> int \<Rightarrow> int option" where
  "SearchChildpid th a = SearchChildpid_from th a 0"

text \<open>\<open>NachOSThread::SetChildExitCode\<close>.\<close>

definition SetChildExitCode :: "state \<Rightarrow> tid \<Rightarrow> int \<Rightarrow> int \<Rightarrow> unit outcome" where
  "SetChildExitCode s t childpid code =
     (case SearchChildpid (threads s t) childpid of
        None \<Rightarrow> Undefined
      | Some i \<Rightarrow>
          (case arr_set (childexitcode (threads s t)) i code of
             None \<Rightarrow> Undefined
           | Some codes \<Rightarrow>
               (case arr_set (childexitstatus (threads s t)) i True of
                  None \<Rightarrow> Undefined
                | Some flags \<Rightarrow>
                    (let s1 = upd_thread s t (\<lambda>th. th
                                \<lparr>childexitcode := codes, childexitstatus := flags\<rparr>)
                     in if waitchildindex (threads s1 t) = i then
                          (case SetLevel (upd_thread s1 t (\<lambda>th. th\<lparr>waitchildindex := - 1\<rparr>)) IntOff of
                             (oldLevel, s2) \<Rightarrow>
                               Returned () (snd (SetLevel (MoveThreadToReadyQueue s2 t) oldLevel)))
                        else Returned () s1))))"

text \<open>
  \<open>NachOSThread::JoinThreadWithChild\<close>; \<open>JoinThreadWithChild_return\<close> is its last
  statement, \<open>JoinThreadWithChild_resumed\<close> what follows the call of
  \<open>PutThreadToSleep\<close>.
\<close>

definition JoinThreadWithChild_return :: "tid \<Rightarrow> int \<Rightarrow> state \<Rightarrow> int outcome" where
  "JoinThreadWithChild_return t index s =
     (case arr_get (childexitcode (threads s t)) index of
        None \<Rightarrow> Undefined
      | Some c \<Rightarrow> Returned c s)"

definition JoinThreadWithChild_resumed ::
  "tid \<Rightarrow> int \<Rightarrow> IntStatus \<Rightarrow> unit \<Rightarrow> state \<Rightarrow> int outcome" where
  "JoinThreadWithChild_resumed t index oldLevel u s =
     JoinThreadWithChild_return t index (snd (SetLevel s oldLevel))"

definition JoinThreadWithChild ::
  "(state \<Rightarrow> state) \<Rightarrow> state \<Rightarrow> tid \<Rightarrow> int \<Rightarrow> int outcome option" where
  "JoinThreadWithChild Idle s t index =
     (case arr_get (childexitstatus (threads s t)) index of
        None \<Rightarrow> Some Undefined
      | Some exited \<Rightarrow>
          if exited = False then
            (case SetLevel (upd_thread s t (\<lambda>th. th\<lparr>waitchildindex := index\<rparr>)) IntOff of
               (oldLevel, s1) \<Rightarrow>
                 map_option (\<lambda>r. bind r (JoinThreadWithChild_resumed t index oldLevel))
                   (PutThreadToSleep Idle s1 t))
          else Some (JoinThreadWithChild_return t index s))"

section \<open>Example states\<close>

text \<open>A thread object with empty child tables, and the state before the first thread is made.\<close>

definition blankThread :: NachOSThread where
  "blankThread =
     \<lparr>name = [], status = JUST_CREATED, stackTop = None, stack = None,
      machineState = (\<lambda>r. Val 0), pid = 0, ppid = 0, parentthread = None,
      space = None, stateRestored = False, instructionCount = 0, childCount = 0,
      waitchildindex = - 1, child_pids = replicate MAXCHILDCOUNT 0,
      childexitcode = replicate MAXCHILDCOUNT 0,
      childexitstatus = replicate MAXCHILDCOUNT False\<rparr>"

definition boot_state :: state where
  "boot_state =
     \<lparr>threads = (\<lambda>a. blankThread), currentThread = None, threadToBeDestroyed = None,
      listOfReadyThreads = [], level = IntOff, availpid = 1\<rparr>"

text \<open>
  The root thread (pid 1, at address 1) is running with interrupts enabled; its only
  child (pid 2, at address 2, recorded in slot 0) is ready and has not exited.
\<close>

definition rootThread :: NachOSThread where
  "rootThread =
     blankThread\<lparr>status := RUNNING, pid := 1, childCount := 1,
       child_pids := (replicate MAXCHILDCOUNT 0)[0 := 2]\<rparr>"

definition childThread :: NachOSThread where
  "childThread =
     blankThread\<lparr>status := READY, pid := 2, ppid := 1, parentthread := Some 1\<rparr>"

definition family_state :: state where
  "family_state =
     \<lparr>threads = (\<lambda>a. blankThread)(1 := rootThread, 2 := childThread),
      currentThread = Some 1, threadToBeDestroyed = None,
      listOfReadyThreads = [2], level = IntOn, availpid = 3\<rparr>"

text \<open>The same threads after the root has yielded to its child.\<close>

definition child_running_state :: state where
  "child_running_state =
     \<lparr>threads = (\<lambda>a. blankThread)
        (1 := rootThread\<lparr>status := READY\<rparr>, 2 := childThread\<lparr>status := RUNNING\<rparr>),
      currentThread = Some 2, threadToBeDestroyed = None,
      listOfReadyThreads = [1], level = IntOn, availpid = 3\<rparr>"

text \<open>The child's exit with code 7 has been recorded in slot 0 of the root.\<close>

definition exited_state :: state where
  "exited_state =
     upd_thread family_state 1 (\<lambda>th. th
       \<lparr>childexitcode := (childexitcode th)[0 := 7],
        childexitstatus := (childexitstatus th)[0 := True]\<rparr>)"

text \<open>
  The root has two children (pids 2 and 3, slots 0 and 1), and the exit of the second
  has been recorded in slot 1.
\<close>

definition second_exited_state :: state where
  "second_exited_state =
     upd_thread family_state 1 (\<lambda>th. th
       \<lparr>childCount := 2, child_pids := (child_pids th)[1 := 3],
        childexitstatus := (childexitstatus th)[1 := True]\<rparr>)"

text \<open>An idle-wait whose external event makes no thread ready.\<close>

definition no_event :: "state \<Rightarrow> state" where
  "no_event s = s"

text \<open>The root thread is running with interrupts off and no thread is ready.\<close>

definition idle_state :: state where
  "idle_state = family_state\<lparr>listOfReadyThreads := [], level := IntOff\<rparr>"

text \<open>An idle-wait ended by an external event whose handler makes the thread at address 2 ready.\<close>

definition wake_event :: "state \<Rightarrow> state" where
  "wake_event s = MoveThreadToReadyQueue s 2"

text \<open>
  The child tables of a thread object are arrays of \<open>MAXCHILDCOUNT\<close> entries, of
  which the first \<open>childCount\<close> are in use.
\<close>

definition child_tables_ok :: "NachOSThread \<Rightarrow> bool" where
  "child_tables_ok th =
     (length (child_pids th) = MAXCHILDCOUNT
      \<and> length (childexitcode th) = MAXCHILDCOUNT
      \<and> length (childexitstatus th) = MAXCHILDCOUNT
      \<and> 0 \<le> childCount th \<and> childCount th \<le> int MAXCHILDCOUNT)"

text \<open>The identifier \<open>a\<close> is among the recorded child identifiers of the thread.\<close>

definition recorded_child :: "NachOSThread \<Rightarrow> int \<Rightarrow> bool" where
  "recorded_child th a = (a \<in> set (take (nat (childCount th)) (child_pids th)))"

text \<open>The exit code that a join returned, if it returned, and a join made on a given state.\<close>

fun joined_code :: "int outcome option \<Rightarrow> int option" where
  "joined_code (Some (Returned c s)) = Some c"
| "joined_code r = None"

definition join_again :: "(state \<Rightarrow> state) \<Rightarrow> tid \<Rightarrow> int \<Rightarrow> state \<Rightarrow> int option" where
  "join_again Idle t index s = joined_code (JoinThreadWithChild Idle s t index)"

text \<open>Reading a thread's status and join index out of a state.\<close>

definition status_of :: "tid \<Rightarrow> state \<Rightarrow> ThreadStatus" where
  "status_of t s = status (threads s t)"

definition waitchildindex_of :: "tid \<Rightarrow> state \<Rightarrow> int" where
  "waitchildindex_of t s = waitchildindex (threads s t)"

text \<open>The child is running and the root is blocked, joining slot 0.\<close>

definition joining_state :: state where
  "joining_state =
     (upd_thread child_running_state 1 (\<lambda>th. th\<lparr>status := BLOCKED, waitchildindex := 0\<rparr>))
       \<lparr>listOfReadyThreads := []\<rparr>"

text \<open>Fresh memory whose cells all hold 0.\<close>

definition zero_memory :: "nat \<Rightarrow> cell" where
  "zero_memory i = Val 0"

text \<open>Reading a cell of a thread's stack and a slot of its saved context out of a state.\<close>

definition stack_cell :: "tid \<Rightarrow> int \<Rightarrow> state \<Rightarrow> cell option" where
  "stack_cell t i s = (case stack (threads s t) of None \<Rightarrow> None | Some st \<Rightarrow> arr_get st i)"

definition context_slot :: "tid \<Rightarrow> reg \<Rightarrow> state \<Rightarrow> cell" where
  "context_slot t r s = machineState (threads s t) r"

definition stackTop_of :: "tid \<Rightarrow> state \<Rightarrow> int option" where
  "stackTop_of t s = stackTop (threads s t)"

text \<open>
  The state in which the \<open>i\<close>-th construction of a sequence starts (before the current
  thread of that step is set), given the states after each construction.
\<close>

definition state_before :: "state \<Rightarrow> state list \<Rightarrow> nat \<Rightarrow> state" where
  "state_before s ss i = (if i = 0 then s else ss ! (i - 1))"

text \<open>Reading pid and ppid of the thread at an address out of a state.\<close>

definition pid_of :: "tid \<Rightarrow> state \<Rightarrow> int" where
  "pid_of a s = pid (threads s a)"

definition ppid_of :: "tid \<Rightarrow> state \<Rightarrow> int" where
  "ppid_of a s = ppid (threads s a)"

text \<open>The value a call returned, and the pids and ppids that a sequence of constructions assigned.\<close>

fun returned_value :: "'a outcome \<Rightarrow> 'a option" where
  "returned_value (Returned a s) = Some a"
| "returned_value r = None"

fun pids_of_run :: "(tid option \<times> tid \<times> string) list \<Rightarrow> state list \<Rightarrow> int list" where
  "pids_of_run ((cur, a, nm) # steps) (s # ss) = pid_of a s # pids_of_run steps ss"
| "pids_of_run steps ss = []"

fun ppids_of_run :: "(tid option \<times> tid \<times> string) list \<Rightarrow> state list \<Rightarrow> int list" where
  "ppids_of_run ((cur, a, nm) # steps) (s # ss) = ppid_of a s # ppids_of_run steps ss"
| "ppids_of_run steps ss = []"

text \<open>
  The main thread is made first; running, it makes a child at address 2; the child,
  running, makes a thread at address 3.
\<close>

definition three_steps :: "(tid option \<times> tid \<times> string) list" where
  "three_steps = [(None, 1, ''main''), (Some 1, 2, ''child''), (Some 2, 3, ''grandchild'')]"

section \<open>The ready queue is first-in first-out\<close>

lemma run_queue_conserves:
  "run_queue s ops = (out, s') \<Longrightarrow>
     out @ listOfReadyThreads s' = listOfReadyThreads s @ enqueued ops"
proof (induction s ops arbitrary: out s' rule: run_queue.induct)
  case (1 s)
  then show ?case by simp
next
  case (2 s t ops)
  then show ?case
    by (simp add: MoveThreadToReadyQueue_def upd_thread_def)
next
  case (3 s ops)
  show ?case
  proof (cases "listOfReadyThreads s")
    case Nil
    with 3 show ?thesis
      by (simp add: SelectNextReadyThread_def)
  next
    case (Cons t q)
    obtain out1 s2 where r: "run_queue (s\<lparr>listOfReadyThreads := q\<rparr>) ops = (out1, s2)"
      by (cases "run_queue (s\<lparr>listOfReadyThreads := q\<rparr>) ops")
    from "3.IH"(2) [of "Some t" "s\<lparr>listOfReadyThreads := q\<rparr>" t out1 s2] Cons r
    have "out1 @ listOfReadyThreads s2 = q @ enqueued ops"
      by (simp add: SelectNextReadyThread_def)
    moreover from "3.prems" Cons r have "out = t # out1" and "s' = s2"
      by (simp_all add: SelectNextReadyThread_def)
    ultimately show ?thesis using Cons by simp
  qed
qed

lemma run_queue_served:
  "run_queue s ops = (out, s') \<Longrightarrow>
     length out = served (length (listOfReadyThreads s)) ops"
proof (induction s ops arbitrary: out s' rule: run_queue.induct)
  case (1 s)
  then show ?case by simp
next
  case (2 s t ops)
  then show ?case
    by (simp add: MoveThreadToReadyQueue_def upd_thread_def)
next
  case (3 s ops)
  show ?case
  proof (cases "listOfReadyThreads s")
    case Nil
    with 3 show ?thesis
      by (simp add: SelectNextReadyThread_def)
  next
    case (Cons t q)
    obtain out1 s2 where r: "run_queue (s\<lparr>listOfReadyThreads := q\<rparr>) ops = (out1, s2)"
      by (cases "run_queue (s\<lparr>listOfReadyThreads := q\<rparr>) ops")
    from "3.IH"(2) [of "Some t" "s\<lparr>listOfReadyThreads := q\<rparr>" t out1 s2] Cons r
    have "length out1 = served (length q) ops"
      by (simp add: SelectNextReadyThread_def)
    moreover from "3.prems" Cons r have "out = t # out1"
      by (simp add: SelectNextReadyThread_def)
    ultimately show ?thesis using Cons by simp
  qed
qed

text \<open>
  Claim C7, as amended. Starting from an empty ready queue, after any sequence of
  \<open>MoveThreadToReadyQueue\<close> and \<open>SelectNextReadyThread\<close> calls: a dequeue
  returns a thread exactly when it finds the queue non-empty; the threads returned are,
  in order, the first threads that were enqueued (strict FIFO, no priority) and the queue
  holds the remaining ones in insertion order; the queue is empty exactly when the number
  of threads returned equals the number of enqueues. Hence, when every dequeue of the
  sequence returned a thread, the queue is empty exactly when the enqueue and dequeue
  counts are equal.
\<close>

theorem ready_queue_fifo_counts:
  assumes "listOfReadyThreads s = []"
    and "run_queue s ops = (out, s')"
  shows "out = take (served 0 ops) (enqueued ops)
     \<and> listOfReadyThreads s' = drop (served 0 ops) (enqueued ops)
     \<and> length out = served 0 ops
     \<and> served 0 ops \<le> dequeues ops
     \<and> (listOfReadyThreads s' = [] \<longleftrightarrow> served 0 ops = length (enqueued ops))
     \<and> (served 0 ops = dequeues ops \<longrightarrow>
           (listOfReadyThreads s' = [] \<longleftrightarrow> length (enqueued ops) = dequeues ops))"
proof -
  from run_queue_conserves [OF assms(2)] assms(1)
  have e: "out @ listOfReadyThreads s' = enqueued ops"
    by simp
  from run_queue_served [OF assms(2)] assms(1)
  have l: "length out = served 0 ops"
    by simp
  have t: "take (length out) (out @ listOfReadyThreads s') = out"
    by simp
  have d: "drop (length out) (out @ listOfReadyThreads s') = listOfReadyThreads s'"
    by simp
  have z: "listOfReadyThreads s' = [] \<longleftrightarrow>
      length out = length (out @ listOfReadyThreads s')"
    by simp
  have b: "served n ops \<le> dequeues ops" for n
    by (induction n ops rule: served.induct) simp_all
  from t d z b [of 0] show ?thesis
    unfolding e l by auto
qed

theorem ready_queue_fifo_counts_witness:
  "listOfReadyThreads boot_state = []
   \<and> served 0 [Enqueue 1, Enqueue 2, Dequeue, Dequeue, Dequeue, Enqueue 3] = 2
   \<and> fst (run_queue boot_state [Enqueue 1, Enqueue 2, Dequeue, Dequeue, Dequeue, Enqueue 3]) = [1, 2]
   \<and> listOfReadyThreads (snd (run_queue boot_state [Enqueue 1, Enqueue 2, Dequeue, Dequeue, Dequeue, Enqueue 3])) = [3]
   \<and> served 0 [Enqueue 1, Enqueue 2, Dequeue, Dequeue] = dequeues [Enqueue 1, Enqueue 2, Dequeue, Dequeue]
   \<and> length (enqueued [Enqueue 1, Enqueue 2, Dequeue, Dequeue]) = dequeues [Enqueue 1, Enqueue 2, Dequeue, Dequeue]
   \<and> fst (run_queue boot_state [Enqueue 1, Enqueue 2, Dequeue, Dequeue]) = [1, 2]
   \<and> listOfReadyThreads (snd (run_queue boot_state [Enqueue 1, Enqueue 2, Dequeue, Dequeue])) = []"
proof -
  have h: "listOfReadyThreads boot_state = []"
    by (simp add: boot_state_def)
  have r: "run_queue boot_state [Enqueue 1, Enqueue 2, Dequeue, Dequeue, Dequeue, Enqueue 3]
     = (fst (run_queue boot_state [Enqueue 1, Enqueue 2, Dequeue, Dequeue, Dequeue, Enqueue 3]),
        snd (run_queue boot_state [Enqueue 1, Enqueue 2, Dequeue, Dequeue, Dequeue, Enqueue 3]))"
    by simp
  have r': "run_queue boot_state [Enqueue 1, Enqueue 2, Dequeue, Dequeue]
     = (fst (run_queue boot_state [Enqueue 1, Enqueue 2, Dequeue, Dequeue]),
        snd (run_queue boot_state [Enqueue 1, Enqueue 2, Dequeue, Dequeue]))"
    by simp
  have v: "served 0 [Enqueue 1, Enqueue 2, Dequeue, Dequeue, Dequeue, Enqueue 3] = 2"
    by simp
  have v': "served 0 [Enqueue 1, Enqueue 2, Dequeue, Dequeue] = dequeues [Enqueue 1, Enqueue 2, Dequeue, Dequeue]"
    by simp
  have c': "length (enqueued [Enqueue 1, Enqueue 2, Dequeue, Dequeue]) = dequeues [Enqueue 1, Enqueue 2, Dequeue, Dequeue]"
    by simp
  show ?thesis
    using h v v' c' ready_queue_fifo_counts [OF h r] ready_queue_fifo_counts [OF h r']
    by simp
qed

text \<open>
  Claim C7 as stated fails in its count: after a dequeue on the empty queue, which
  returns no thread, and one enqueue, the enqueue and dequeue counts are equal and the
  queue is not empty.
\<close>

theorem ready_queue_equal_counts_not_empty:
  "listOfReadyThreads boot_state = []
   \<and> length (enqueued [Dequeue, Enqueue 1]) = dequeues [Dequeue, Enqueue 1]
   \<and> fst (run_queue boot_state [Dequeue, Enqueue 1]) = []
   \<and> listOfReadyThreads (snd (run_queue boot_state [Dequeue, Enqueue 1])) = [1]
   \<and> listOfReadyThreads (snd (run_queue boot_state [Dequeue, Enqueue 1])) \<noteq> []"
  by (simp add: boot_state_def MoveThreadToReadyQueue_def SelectNextReadyThread_def upd_thread_def)

section \<open>Fatal integrity violations\<close>

text \<open>
  Claim C6. \<open>PutThreadToSleep\<close> on a thread that is not the current thread, or with
  interrupts enabled, ends in a failed assertion; so does the destructor run on the
  thread that is currently running. Neither returns or proceeds.
\<close>

theorem integrity_violations_abort:
  "(currentThread s \<noteq> Some t \<or> level s \<noteq> IntOff \<longrightarrow>
      PutThreadToSleep Idle s t = Some AssertFailed)
   \<and> (currentThread s' = Some t' \<longrightarrow> NachOSThread_dtor s' t' = AssertFailed)"
  by (simp add: PutThreadToSleep_def NachOSThread_dtor_def)

theorem integrity_violations_abort_witness:
  "currentThread family_state \<noteq> Some 2
   \<and> PutThreadToSleep no_event family_state 2 = Some AssertFailed
   \<and> level family_state \<noteq> IntOff
   \<and> PutThreadToSleep no_event family_state 1 = Some AssertFailed
   \<and> currentThread family_state = Some 1
   \<and> NachOSThread_dtor family_state 1 = AssertFailed"
proof -
  have a: "currentThread family_state \<noteq> Some 2"
    by (simp add: family_state_def)
  have b: "level family_state \<noteq> IntOff"
    by (simp add: family_state_def)
  have c: "currentThread family_state = Some 1"
    by (simp add: family_state_def)
  from a b c
    integrity_violations_abort [of family_state 2 no_event family_state 1]
    integrity_violations_abort [of family_state 1 no_event family_state 1]
  show ?thesis by simp
qed

section \<open>Yield\<close>

lemma YieldCPU_resumed_restores:
  "currentThread s2 = Some t \<Longrightarrow> threadToBeDestroyed s2 \<noteq> Some t \<Longrightarrow>
     \<exists>s3. bind (ScheduleThread_resumed s2) (YieldCPU_resumed l) = Returned () s3 \<and> level s3 = l"
  by (cases "threadToBeDestroyed s2")
    (auto simp: ScheduleThread_resumed_def YieldCPU_resumed_def SetLevel_def
      NachOSThread_dtor_def RestoreUserState_def upd_thread_def)

text \<open>
  Claim C4. The running thread yields. If the ready queue is empty, \<open>YieldCPU\<close> returns
  at once and changes nothing: the same thread goes on running, at its interrupt level.
  If the ready queue is not empty, the thread is appended to its tail (status Ready) and
  the CPU is switched to the thread taken from its head (status Running); when the
  yielding thread is resumed (as the current thread and not itself pending destruction),
  the call returns with the interrupt level it was called at.
\<close>

theorem YieldCPU_switches_or_continues:
  assumes "currentThread s = Some t"
  shows "(listOfReadyThreads s = [] \<longrightarrow> YieldCPU s t = Returned () s)
    \<and> (\<forall>n q. listOfReadyThreads s = n # q \<longrightarrow>
          (\<exists>s'. YieldCPU s t =
                  Switched s' (\<lambda>s2. bind (ScheduleThread_resumed s2) (YieldCPU_resumed (level s)))
             \<and> listOfReadyThreads s' = q @ [t]
             \<and> currentThread s' = Some n
             \<and> status (threads s' n) = RUNNING
             \<and> (n \<noteq> t \<longrightarrow> status (threads s' t) = READY)))
    \<and> (\<forall>s2. currentThread s2 = Some t \<and> threadToBeDestroyed s2 \<noteq> Some t \<longrightarrow>
          (\<exists>s3. bind (ScheduleThread_resumed s2) (YieldCPU_resumed (level s)) = Returned () s3
             \<and> level s3 = level s))"
proof (intro conjI allI impI)
  assume "listOfReadyThreads s = []"
  with assms show "YieldCPU s t = Returned () s"
    by (simp add: YieldCPU_def SetLevel_def SelectNextReadyThread_def YieldCPU_resumed_def)
next
  fix n q
  assume "listOfReadyThreads s = n # q"
  with assms show "\<exists>s'. YieldCPU s t =
                  Switched s' (\<lambda>s2. bind (ScheduleThread_resumed s2) (YieldCPU_resumed (level s)))
             \<and> listOfReadyThreads s' = q @ [t]
             \<and> currentThread s' = Some n
             \<and> status (threads s' n) = RUNNING
             \<and> (n \<noteq> t \<longrightarrow> status (threads s' t) = READY)"
    by (simp add: YieldCPU_def SetLevel_def SelectNextReadyThread_def ScheduleThread_def
        MoveThreadToReadyQueue_def upd_thread_def)
next
  fix s2 :: state
  assume "currentThread s2 = Some t \<and> threadToBeDestroyed s2 \<noteq> Some t"
  then show "\<exists>s3. bind (ScheduleThread_resumed s2) (YieldCPU_resumed (level s)) = Returned () s3
             \<and> level s3 = level s"
    by (simp add: YieldCPU_resumed_restores)
qed

theorem YieldCPU_switches_or_continues_witness:
  "currentThread family_state = Some 1
   \<and> listOfReadyThreads family_state = [2]
   \<and> map_option listOfReadyThreads (switched_state (Some (YieldCPU family_state 1))) = Some [1]
   \<and> map_option currentThread (switched_state (Some (YieldCPU family_state 1))) = Some (Some 2)
   \<and> threadToBeDestroyed family_state \<noteq> Some 1
   \<and> map_option level (returned_state (Some
         (bind (ScheduleThread_resumed family_state) (YieldCPU_resumed (level family_state)))))
       = Some IntOn
   \<and> currentThread idle_state = Some 1
   \<and> listOfReadyThreads idle_state = []
   \<and> YieldCPU idle_state 1 = Returned () idle_state"
proof -
  have a: "currentThread family_state = Some 1"
    by (simp add: family_state_def)
  have b: "listOfReadyThreads family_state = [2]"
    by (simp add: family_state_def)
  have c: "threadToBeDestroyed family_state \<noteq> Some 1"
    by (simp add: family_state_def)
  have d: "currentThread idle_state = Some 1"
    by (simp add: idle_state_def family_state_def)
  have e: "listOfReadyThreads idle_state = []"
    by (simp add: idle_state_def)
  have f: "level family_state = IntOn"
    by (simp add: family_state_def)
  from YieldCPU_switches_or_continues [OF a] b
  obtain s' where "YieldCPU family_state 1 =
      Switched s' (\<lambda>s2. bind (ScheduleThread_resumed s2) (YieldCPU_resumed (level family_state)))"
    and "listOfReadyThreads s' = [] @ [1]" and "currentThread s' = Some 2"
    by blast
  moreover from YieldCPU_switches_or_continues [OF a] a c
  obtain s3 where "bind (ScheduleThread_resumed family_state)
      (YieldCPU_resumed (level family_state)) = Returned () s3" and "level s3 = level family_state"
    by blast
  moreover from YieldCPU_switches_or_continues [OF d] e
  have "YieldCPU idle_state 1 = Returned () idle_state"
    by blast
  ultimately show ?thesis
    using a b c d e f by simp
qed

section \<open>Sleep\<close>

lemma PutThreadToSleep_loop_ready:
  "listOfReadyThreads s = n # q \<Longrightarrow>
     PutThreadToSleep_loop Idle s = Some (n, s\<lparr>listOfReadyThreads := q\<rparr>)"
  by (subst PutThreadToSleep_loop.simps) (simp add: SelectNextReadyThread_def)

lemma PutThreadToSleep_loop_idle:
  "listOfReadyThreads s = [] \<Longrightarrow>
     PutThreadToSleep_loop Idle s = PutThreadToSleep_loop Idle (Idle s)"
  by (subst PutThreadToSleep_loop.simps) (simp add: SelectNextReadyThread_def)

lemma PutThreadToSleep_loop_after:
  "\<forall>j<k. listOfReadyThreads ((Idle ^^ j) s) = [] \<Longrightarrow>
   listOfReadyThreads ((Idle ^^ k) s) = n # q \<Longrightarrow>
     PutThreadToSleep_loop Idle s = Some (n, ((Idle ^^ k) s)\<lparr>listOfReadyThreads := q\<rparr>)"
proof (induction k arbitrary: s)
  case 0
  then show ?case by (simp add: PutThreadToSleep_loop_ready)
next
  case (Suc k)
  from Suc.prems(1) have e: "listOfReadyThreads s = []"
    by (metis funpow_0 zero_less_Suc)
  have "\<forall>j<k. listOfReadyThreads ((Idle ^^ j) (Idle s)) = []"
  proof (intro allI impI)
    fix j assume "j < k"
    then have "listOfReadyThreads ((Idle ^^ Suc j) s) = []"
      using Suc.prems(1) by (meson Suc_less_eq)
    then show "listOfReadyThreads ((Idle ^^ j) (Idle s)) = []"
      by (simp add: funpow_swap1)
  qed
  moreover from Suc.prems(2) have "listOfReadyThreads ((Idle ^^ k) (Idle s)) = n # q"
    by (simp add: funpow_swap1)
  ultimately have "PutThreadToSleep_loop Idle (Idle s)
      = Some (n, ((Idle ^^ k) (Idle s))\<lparr>listOfReadyThreads := q\<rparr>)"
    by (rule Suc.IH)
  with e show ?case
    by (simp add: PutThreadToSleep_loop_idle funpow_swap1)
qed

text \<open>
  Claim C5. The running thread sleeps, with interrupts off. Its status is set to Blocked.
  If the ready queue is empty for the first \<open>k\<close> idle-waits and the event ending the
  \<open>k\<close>-th makes a thread ready (\<open>k = 0\<close>: a thread is ready at once), the call
  idles \<open>k\<close> times and then switches to the thread at the head of the ready queue,
  which becomes the current thread with status Running. Whenever the call switches, the
  thread switched to is not NULL.
\<close>

theorem PutThreadToSleep_idles_then_switches:
  "(\<forall>s' k'. PutThreadToSleep Idle s t = Some (Switched s' k') \<longrightarrow> currentThread s' \<noteq> None)
   \<and> (currentThread s = Some t \<and> level s = IntOff
        \<and> (\<forall>j<k. listOfReadyThreads
               ((Idle ^^ j) (upd_thread s t (\<lambda>th. th\<lparr>status := BLOCKED\<rparr>))) = [])
        \<and> listOfReadyThreads
               ((Idle ^^ k) (upd_thread s t (\<lambda>th. th\<lparr>status := BLOCKED\<rparr>))) = n # q
      \<longrightarrow> status (threads (upd_thread s t (\<lambda>th. th\<lparr>status := BLOCKED\<rparr>)) t) = BLOCKED
        \<and> (\<exists>s'. PutThreadToSleep Idle s t = Some (Switched s' ScheduleThread_resumed)
             \<and> currentThread s' = Some n
             \<and> listOfReadyThreads s' = q
             \<and> status (threads s' n) = RUNNING
             \<and> (n \<noteq> t \<longrightarrow> threads s' t =
                   threads ((Idle ^^ k) (upd_thread s t (\<lambda>th. th\<lparr>status := BLOCKED\<rparr>))) t)))"
proof (intro conjI allI impI)
  fix s' k'
  assume "PutThreadToSleep Idle s t = Some (Switched s' k')"
  then show "currentThread s' \<noteq> None"
    by (auto simp: PutThreadToSleep_def ScheduleThread_def split: if_splits option.splits)
next
  assume a: "currentThread s = Some t \<and> level s = IntOff
        \<and> (\<forall>j<k. listOfReadyThreads
               ((Idle ^^ j) (upd_thread s t (\<lambda>th. th\<lparr>status := BLOCKED\<rparr>))) = [])
        \<and> listOfReadyThreads
               ((Idle ^^ k) (upd_thread s t (\<lambda>th. th\<lparr>status := BLOCKED\<rparr>))) = n # q"
  show "status (threads (upd_thread s t (\<lambda>th. th\<lparr>status := BLOCKED\<rparr>)) t) = BLOCKED"
    by (simp add: upd_thread_def)
  from a have "PutThreadToSleep_loop Idle (upd_thread s t (\<lambda>th. th\<lparr>status := BLOCKED\<rparr>))
      = Some (n, ((Idle ^^ k) (upd_thread s t (\<lambda>th. th\<lparr>status := BLOCKED\<rparr>)))
                   \<lparr>listOfReadyThreads := q\<rparr>)"
    by (intro PutThreadToSleep_loop_after) simp_all
  with a show "\<exists>s'. PutThreadToSleep Idle s t = Some (Switched s' ScheduleThread_resumed)
             \<and> currentThread s' = Some n
             \<and> listOfReadyThreads s' = q
             \<and> status (threads s' n) = RUNNING
             \<and> (n \<noteq> t \<longrightarrow> threads s' t =
                   threads ((Idle ^^ k) (upd_thread s t (\<lambda>th. th\<lparr>status := BLOCKED\<rparr>))) t)"
    by (simp add: PutThreadToSleep_def ScheduleThread_def upd_thread_def)
qed

theorem PutThreadToSleep_idles_then_switches_witness:
  "currentThread idle_state = Some 1
   \<and> level idle_state = IntOff
   \<and> listOfReadyThreads (upd_thread idle_state 1 (\<lambda>th. th\<lparr>status := BLOCKED\<rparr>)) = []
   \<and> listOfReadyThreads (wake_event (upd_thread idle_state 1 (\<lambda>th. th\<lparr>status := BLOCKED\<rparr>))) = [2]
   \<and> map_option currentThread (switched_state (PutThreadToSleep wake_event idle_state 1))
       = Some (Some 2)
   \<and> map_option listOfReadyThreads (switched_state (PutThreadToSleep wake_event idle_state 1))
       = Some []
   \<and> map_option (status_of 1) (switched_state (PutThreadToSleep wake_event idle_state 1))
       = Some BLOCKED"
proof -
  have a: "currentThread idle_state = Some 1"
    by (simp add: idle_state_def family_state_def)
  have b: "level idle_state = IntOff"
    by (simp add: idle_state_def)
  have c: "listOfReadyThreads (upd_thread idle_state 1 (\<lambda>th. th\<lparr>status := BLOCKED\<rparr>)) = []"
    by (simp add: idle_state_def upd_thread_def)
  have d: "listOfReadyThreads (wake_event (upd_thread idle_state 1 (\<lambda>th. th\<lparr>status := BLOCKED\<rparr>))) = [2]"
    by (simp add: idle_state_def upd_thread_def wake_event_def MoveThreadToReadyQueue_def)
  from a b c d
    PutThreadToSleep_idles_then_switches [of wake_event idle_state 1 "Suc 0" 2 "[]"]
  obtain s' where "PutThreadToSleep wake_event idle_state 1 = Some (Switched s' ScheduleThread_resumed)"
    and "currentThread s' = Some 2" and "listOfReadyThreads s' = []"
    and "threads s' 1 =
      threads (wake_event (upd_thread idle_state 1 (\<lambda>th. th\<lparr>status := BLOCKED\<rparr>))) 1"
    by auto
  moreover have "status (threads (wake_event
      (upd_thread idle_state 1 (\<lambda>th. th\<lparr>status := BLOCKED\<rparr>))) 1) = BLOCKED"
    by (simp add: upd_thread_def wake_event_def MoveThreadToReadyQueue_def)
  ultimately show ?thesis
    using a b c d by (simp add: status_of_def)
qed

section \<open>Join and finish\<close>

lemma upd_thread_sel [simp]:
  "threads (upd_thread s t f) = (threads s)(t := f (threads s t))"
  "currentThread (upd_thread s t f) = currentThread s"
  "threadToBeDestroyed (upd_thread s t f) = threadToBeDestroyed s"
  "listOfReadyThreads (upd_thread s t f) = listOfReadyThreads s"
  "level (upd_thread s t f) = level s"
  "availpid (upd_thread s t f) = availpid s"
  by (simp_all add: upd_thread_def)



lemma JoinThreadWithChild_resumed_returns:
  assumes "currentThread s2 = Some t" and "threadToBeDestroyed s2 \<noteq> Some t"
    and "0 \<le> index" and "index < int (length (childexitcode (threads s2 t)))"
  shows "\<exists>s3. bind (ScheduleThread_resumed s2) (JoinThreadWithChild_resumed t index l)
         = Returned (childexitcode (threads s2 t) ! nat index) s3
     \<and> level s3 = l
     \<and> currentThread s3 = Some t
     \<and> childexitcode (threads s3 t) = childexitcode (threads s2 t)
     \<and> childexitstatus (threads s3 t) = childexitstatus (threads s2 t)"
  using assms
  by (cases "threadToBeDestroyed s2")
    (auto simp: ScheduleThread_resumed_def JoinThreadWithChild_resumed_def
      JoinThreadWithChild_return_def SetLevel_def NachOSThread_dtor_def RestoreUserState_def
      arr_get_def)

lemma JoinThreadWithChild_exited:
  assumes "0 \<le> index" and "index < int (length (childexitstatus (threads s t)))"
    and "index < int (length (childexitcode (threads s t)))"
    and "childexitstatus (threads s t) ! nat index"
  shows "JoinThreadWithChild Idle s t index =
     Some (Returned (childexitcode (threads s t) ! nat index) s)"
  using assms
  by (simp add: JoinThreadWithChild_def JoinThreadWithChild_return_def arr_get_def)

text \<open>
  Claim C2. The current thread joins the child in slot \<open>index\<close> of its tables.
  If the exited flag of the slot is false, the call does not return without blocking: it
  records \<open>index\<close> as the awaited slot and puts the caller to sleep (status Blocked,
  interrupts off), so that, as soon as a thread is ready (after \<open>k\<close> idle-waits), the
  CPU is switched to it and the caller is suspended. When the caller is resumed (as the
  current thread and not itself pending destruction), the call restores the interrupt
  level and returns the exit code then stored in the slot, leaving flag and code as they
  are; if the flag is then set, a second join returns the same code without blocking.
  If the flag is true at the call, it returns the stored exit code at once and leaves the
  state as it was: flag and code are not cleared, so a second join on the slot is the
  same call on the same state and returns the same code without blocking.
\<close>

theorem JoinThreadWithChild_blocks_then_returns:
  assumes "currentThread s = Some t"
    and "0 \<le> index"
    and "index < int (length (childexitstatus (threads s t)))"
    and "length (childexitcode (threads s t)) = length (childexitstatus (threads s t))"
  shows "(\<not> childexitstatus (threads s t) ! nat index \<longrightarrow>
            (\<forall>c s'. JoinThreadWithChild Idle s t index \<noteq> Some (Returned c s'))
          \<and> (\<forall>k n q.
                (\<forall>j<k. listOfReadyThreads ((Idle ^^ j)
                    (upd_thread s t (\<lambda>th. th\<lparr>waitchildindex := index, status := BLOCKED\<rparr>)
                       \<lparr>level := IntOff\<rparr>)) = [])
                \<and> listOfReadyThreads ((Idle ^^ k)
                    (upd_thread s t (\<lambda>th. th\<lparr>waitchildindex := index, status := BLOCKED\<rparr>)
                       \<lparr>level := IntOff\<rparr>)) = n # q
              \<longrightarrow> (\<exists>s'. JoinThreadWithChild Idle s t index =
                          Some (Switched s' (\<lambda>s2. bind (ScheduleThread_resumed s2)
                                  (JoinThreadWithChild_resumed t index (level s))))
                     \<and> currentThread s' = Some n
                     \<and> (n \<noteq> t \<longrightarrow> threads s' t = threads ((Idle ^^ k)
                          (upd_thread s t (\<lambda>th. th\<lparr>waitchildindex := index, status := BLOCKED\<rparr>)
                             \<lparr>level := IntOff\<rparr>)) t))))
     \<and> (\<forall>s2. currentThread s2 = Some t \<and> threadToBeDestroyed s2 \<noteq> Some t
            \<and> index < int (length (childexitcode (threads s2 t)))
            \<and> index < int (length (childexitstatus (threads s2 t)))
          \<longrightarrow> (\<exists>s3. bind (ScheduleThread_resumed s2)
                       (JoinThreadWithChild_resumed t index (level s))
                     = Returned (childexitcode (threads s2 t) ! nat index) s3
                 \<and> level s3 = level s
                 \<and> childexitcode (threads s3 t) = childexitcode (threads s2 t)
                 \<and> childexitstatus (threads s3 t) = childexitstatus (threads s2 t)
                 \<and> (childexitstatus (threads s2 t) ! nat index \<longrightarrow>
                       JoinThreadWithChild Idle s3 t index =
                         Some (Returned (childexitcode (threads s2 t) ! nat index) s3))))
     \<and> (childexitstatus (threads s t) ! nat index \<longrightarrow>
            JoinThreadWithChild Idle s t index =
              Some (Returned (childexitcode (threads s t) ! nat index) s))"
proof (intro conjI allI impI)
  fix c s'
  assume f: "\<not> childexitstatus (threads s t) ! nat index"
  show "JoinThreadWithChild Idle s t index \<noteq> Some (Returned c s')"
  proof
    assume r: "JoinThreadWithChild Idle s t index = Some (Returned c s')"
    with f assms obtain x where
      x: "PutThreadToSleep Idle
            (upd_thread s t (\<lambda>th. th\<lparr>waitchildindex := index\<rparr>)\<lparr>level := IntOff\<rparr>) t = Some x"
      and b: "bind x (JoinThreadWithChild_resumed t index (level s)) = Returned c s'"
      by (auto simp: JoinThreadWithChild_def arr_get_def SetLevel_def)
    from x have "x = AssertFailed \<or> (\<exists>s1 k. x = Switched s1 k)"
      by (auto simp: PutThreadToSleep_def ScheduleThread_def split: if_splits option.splits)
    with b show False by auto
  qed
next
  fix k n q
  let ?s0 = "upd_thread s t (\<lambda>th. th\<lparr>waitchildindex := index, status := BLOCKED\<rparr>)\<lparr>level := IntOff\<rparr>"
  assume f: "\<not> childexitstatus (threads s t) ! nat index"
    and a: "(\<forall>j<k. listOfReadyThreads ((Idle ^^ j) ?s0) = [])
          \<and> listOfReadyThreads ((Idle ^^ k) ?s0) = n # q"
  have e: "upd_thread (upd_thread s t (\<lambda>th. th\<lparr>waitchildindex := index\<rparr>)\<lparr>level := IntOff\<rparr>) t
             (\<lambda>th. th\<lparr>status := BLOCKED\<rparr>) = ?s0"
    by (simp add: upd_thread_def)
  from a have "PutThreadToSleep_loop Idle ?s0 = Some (n, ((Idle ^^ k) ?s0)\<lparr>listOfReadyThreads := q\<rparr>)"
    by (intro PutThreadToSleep_loop_after) simp_all
  then have p: "PutThreadToSleep Idle
        (upd_thread s t (\<lambda>th. th\<lparr>waitchildindex := index\<rparr>)\<lparr>level := IntOff\<rparr>) t
      = Some (ScheduleThread (((Idle ^^ k) ?s0)\<lparr>listOfReadyThreads := q\<rparr>) n)"
    using assms(1) by (simp add: PutThreadToSleep_def e)
  from f assms have "JoinThreadWithChild Idle s t index =
      map_option (\<lambda>r. bind r (JoinThreadWithChild_resumed t index (level s)))
        (PutThreadToSleep Idle
          (upd_thread s t (\<lambda>th. th\<lparr>waitchildindex := index\<rparr>)\<lparr>level := IntOff\<rparr>) t)"
    by (simp add: JoinThreadWithChild_def arr_get_def SetLevel_def)
  then show "\<exists>s'. JoinThreadWithChild Idle s t index =
                          Some (Switched s' (\<lambda>s2. bind (ScheduleThread_resumed s2)
                                  (JoinThreadWithChild_resumed t index (level s))))
                     \<and> currentThread s' = Some n
                     \<and> (n \<noteq> t \<longrightarrow> threads s' t = threads ((Idle ^^ k) ?s0) t)"
    unfolding p by (simp add: ScheduleThread_def)
next
  fix s2 :: state
  assume a: "currentThread s2 = Some t \<and> threadToBeDestroyed s2 \<noteq> Some t
            \<and> index < int (length (childexitcode (threads s2 t)))
            \<and> index < int (length (childexitstatus (threads s2 t)))"
  with assms(2) JoinThreadWithChild_resumed_returns [of s2 t index "level s"]
  obtain s3 where r: "bind (ScheduleThread_resumed s2)
                       (JoinThreadWithChild_resumed t index (level s))
                     = Returned (childexitcode (threads s2 t) ! nat index) s3"
    and l: "level s3 = level s"
    and c: "childexitcode (threads s3 t) = childexitcode (threads s2 t)"
    and e: "childexitstatus (threads s3 t) = childexitstatus (threads s2 t)"
    by blast
  have "childexitstatus (threads s2 t) ! nat index \<longrightarrow>
      JoinThreadWithChild Idle s3 t index =
        Some (Returned (childexitcode (threads s2 t) ! nat index) s3)"
  proof
    assume "childexitstatus (threads s2 t) ! nat index"
    with assms(2) a c e JoinThreadWithChild_exited [of index s3 t Idle]
    show "JoinThreadWithChild Idle s3 t index =
        Some (Returned (childexitcode (threads s2 t) ! nat index) s3)"
      by simp
  qed
  with r l c e
  show "\<exists>s3. bind (ScheduleThread_resumed s2)
                       (JoinThreadWithChild_resumed t index (level s))
                     = Returned (childexitcode (threads s2 t) ! nat index) s3
                 \<and> level s3 = level s
                 \<and> childexitcode (threads s3 t) = childexitcode (threads s2 t)
                 \<and> childexitstatus (threads s3 t) = childexitstatus (threads s2 t)
                 \<and> (childexitstatus (threads s2 t) ! nat index \<longrightarrow>
                       JoinThreadWithChild Idle s3 t index =
                         Some (Returned (childexitcode (threads s2 t) ! nat index) s3))"
    by blast
next
  assume "childexitstatus (threads s t) ! nat index"
  with assms show "JoinThreadWithChild Idle s t index =
              Some (Returned (childexitcode (threads s t) ! nat index) s)"
    by (simp add: JoinThreadWithChild_def JoinThreadWithChild_return_def arr_get_def)
qed


theorem JoinThreadWithChild_blocks_then_returns_witness:
  "currentThread family_state = Some 1
   \<and> \<not> childexitstatus (threads family_state 1) ! nat 0
   \<and> map_option currentThread (switched_state (JoinThreadWithChild no_event family_state 1 0))
       = Some (Some 2)
   \<and> map_option (waitchildindex_of 1) (switched_state (JoinThreadWithChild no_event family_state 1 0))
       = Some 0
   \<and> map_option (status_of 1) (switched_state (JoinThreadWithChild no_event family_state 1 0))
       = Some BLOCKED
   \<and> currentThread exited_state = Some 1
   \<and> threadToBeDestroyed exited_state \<noteq> Some 1
   \<and> childexitstatus (threads exited_state 1) ! nat 0
   \<and> returned_value (bind (ScheduleThread_resumed exited_state)
         (JoinThreadWithChild_resumed 1 0 (level family_state))) = Some 7
   \<and> map_option level (returned_state (Some (bind (ScheduleThread_resumed exited_state)
         (JoinThreadWithChild_resumed 1 0 (level family_state))))) = Some IntOn
   \<and> Option.bind (returned_state (Some (bind (ScheduleThread_resumed exited_state)
         (JoinThreadWithChild_resumed 1 0 (level family_state))))) (join_again no_event 1 0)
       = Some 7
   \<and> JoinThreadWithChild no_event exited_state 1 0 = Some (Returned 7 exited_state)"
proof -
  have a: "currentThread family_state = Some 1"
    by (simp add: family_state_def)
  have b: "(0::int) \<le> 0"
    by simp
  have c: "0 < int (length (childexitstatus (threads family_state 1)))"
    by (simp add: family_state_def rootThread_def blankThread_def MAXCHILDCOUNT_def)
  have d: "length (childexitcode (threads family_state 1))
      = length (childexitstatus (threads family_state 1))"
    by (simp add: family_state_def rootThread_def blankThread_def)
  have f: "\<not> childexitstatus (threads family_state 1) ! nat 0"
    by (simp add: family_state_def rootThread_def blankThread_def MAXCHILDCOUNT_def)
  have r: "listOfReadyThreads ((no_event ^^ 0)
      (upd_thread family_state 1 (\<lambda>th. th\<lparr>waitchildindex := 0, status := BLOCKED\<rparr>)
         \<lparr>level := IntOff\<rparr>)) = [2]"
    by (simp add: family_state_def)
  have z: "\<forall>j<0. listOfReadyThreads ((no_event ^^ j)
      (upd_thread family_state 1 (\<lambda>th. th\<lparr>waitchildindex := 0, status := BLOCKED\<rparr>)
         \<lparr>level := IntOff\<rparr>)) = []"
    by simp
  have ne: "(2::nat) \<noteq> 1"
    by simp
  have lv: "level family_state = IntOn"
    by (simp add: family_state_def)
  from JoinThreadWithChild_blocks_then_returns [OF a b c d, of no_event] f z r ne
  obtain s' where "JoinThreadWithChild no_event family_state 1 0 =
      Some (Switched s' (\<lambda>s2. bind (ScheduleThread_resumed s2)
              (JoinThreadWithChild_resumed 1 0 (level family_state))))"
    and "currentThread s' = Some 2"
    and "threads s' 1 = threads ((no_event ^^ 0)
      (upd_thread family_state 1 (\<lambda>th. th\<lparr>waitchildindex := 0, status := BLOCKED\<rparr>)
         \<lparr>level := IntOff\<rparr>)) 1"
    by blast
  then have g: "map_option currentThread
        (switched_state (JoinThreadWithChild no_event family_state 1 0)) = Some (Some 2)
    \<and> map_option (waitchildindex_of 1)
        (switched_state (JoinThreadWithChild no_event family_state 1 0)) = Some 0
    \<and> map_option (status_of 1)
        (switched_state (JoinThreadWithChild no_event family_state 1 0)) = Some BLOCKED"
    by (simp add: waitchildindex_of_def status_of_def family_state_def)
  have a': "currentThread exited_state = Some 1"
    by (simp add: exited_state_def family_state_def)
  have t': "threadToBeDestroyed exited_state \<noteq> Some 1"
    by (simp add: exited_state_def family_state_def)
  have c': "0 < int (length (childexitstatus (threads exited_state 1)))"
    by (simp add: exited_state_def family_state_def rootThread_def blankThread_def MAXCHILDCOUNT_def)
  have e': "0 < int (length (childexitcode (threads exited_state 1)))"
    by (simp add: exited_state_def family_state_def rootThread_def blankThread_def MAXCHILDCOUNT_def)
  have d': "length (childexitcode (threads exited_state 1))
      = length (childexitstatus (threads exited_state 1))"
    by (simp add: exited_state_def family_state_def rootThread_def blankThread_def)
  have f': "childexitstatus (threads exited_state 1) ! nat 0"
    by (simp add: exited_state_def family_state_def rootThread_def blankThread_def MAXCHILDCOUNT_def)
  have v: "childexitcode (threads exited_state 1) ! nat 0 = 7"
    by (simp add: exited_state_def family_state_def rootThread_def blankThread_def MAXCHILDCOUNT_def)
  from JoinThreadWithChild_blocks_then_returns [OF a b c d, of no_event] a' t' e' c' f' v
  obtain s3 where "bind (ScheduleThread_resumed exited_state)
        (JoinThreadWithChild_resumed 1 0 (level family_state)) = Returned 7 s3"
    and "level s3 = level family_state"
    and "JoinThreadWithChild no_event s3 1 0 = Some (Returned 7 s3)"
    by metis
  then have h: "returned_value (bind (ScheduleThread_resumed exited_state)
         (JoinThreadWithChild_resumed 1 0 (level family_state))) = Some 7
   \<and> map_option level (returned_state (Some (bind (ScheduleThread_resumed exited_state)
         (JoinThreadWithChild_resumed 1 0 (level family_state))))) = Some IntOn
   \<and> Option.bind (returned_state (Some (bind (ScheduleThread_resumed exited_state)
         (JoinThreadWithChild_resumed 1 0 (level family_state))))) (join_again no_event 1 0)
       = Some 7"
    by (simp add: join_again_def lv)
  from JoinThreadWithChild_blocks_then_returns [OF a' b c' d', of no_event] f' v
  have "JoinThreadWithChild no_event exited_state 1 0 = Some (Returned 7 exited_state)"
    by simp
  with a f g a' t' f' h show ?thesis by simp
qed








section \<open>Exit propagation\<close>

lemma recorded_child_iff:
  assumes "childCount th \<le> int (length (child_pids th))"
  shows "recorded_child th a \<longleftrightarrow>
     (\<exists>j. 0 \<le> j \<and> j < childCount th \<and> child_pids th ! nat j = a)"
proof
  assume "recorded_child th a"
  then obtain m where m: "m < length (take (nat (childCount th)) (child_pids th))"
    and e: "take (nat (childCount th)) (child_pids th) ! m = a"
    by (auto simp: recorded_child_def in_set_conv_nth)
  from m have "m < nat (childCount th)" by simp
  with e have "0 \<le> int m \<and> int m < childCount th \<and> child_pids th ! nat (int m) = a"
    by simp
  then show "\<exists>j. 0 \<le> j \<and> j < childCount th \<and> child_pids th ! nat j = a"
    by blast
next
  assume "\<exists>j. 0 \<le> j \<and> j < childCount th \<and> child_pids th ! nat j = a"
  then obtain j where j: "0 \<le> j" "j < childCount th" "child_pids th ! nat j = a"
    by blast
  with assms have "nat j < length (take (nat (childCount th)) (child_pids th))"
    by simp
  moreover from j have "take (nat (childCount th)) (child_pids th) ! nat j = a"
    by simp
  ultimately show "recorded_child th a"
    unfolding recorded_child_def in_set_conv_nth by blast
qed

lemma SearchChildpid_from_scan:
  assumes "0 \<le> i" and "childCount th \<le> int (length (child_pids th))"
  shows "\<exists>r. SearchChildpid_from th a i = Some r
     \<and> ((\<exists>j. i \<le> j \<and> j < childCount th \<and> child_pids th ! nat j = a) \<longrightarrow>
           i \<le> r \<and> r < childCount th \<and> child_pids th ! nat r = a
           \<and> (\<forall>j. i \<le> j \<and> j < r \<longrightarrow> child_pids th ! nat j \<noteq> a))
     \<and> ((\<forall>j. i \<le> j \<and> j < childCount th \<longrightarrow> child_pids th ! nat j \<noteq> a) \<longrightarrow> r = - 1)"
  using assms
proof (induction th a i rule: SearchChildpid_from.induct)
  case (1 th a i)
  show ?case
  proof (cases "i < childCount th")
    case False
    then show ?thesis
      by (subst SearchChildpid_from.simps) auto
  next
    case True
    with 1 have g: "arr_get (child_pids th) i = Some (child_pids th ! nat i)"
      by (simp add: arr_get_def)
    show ?thesis
    proof (cases "child_pids th ! nat i = a")
      case True
      with \<open>i < childCount th\<close> g show ?thesis
        by (subst SearchChildpid_from.simps) auto
    next
      case False
      from "1.IH" [OF \<open>i < childCount th\<close> g False] "1.prems"
      obtain r where r: "SearchChildpid_from th a (i + 1) = Some r"
        and f: "(\<exists>j. i + 1 \<le> j \<and> j < childCount th \<and> child_pids th ! nat j = a) \<longrightarrow>
           i + 1 \<le> r \<and> r < childCount th \<and> child_pids th ! nat r = a
           \<and> (\<forall>j. i + 1 \<le> j \<and> j < r \<longrightarrow> child_pids th ! nat j \<noteq> a)"
        and n: "(\<forall>j. i + 1 \<le> j \<and> j < childCount th \<longrightarrow> child_pids th ! nat j \<noteq> a) \<longrightarrow> r = - 1"
        by auto
      have step: "\<And>j. i \<le> j \<Longrightarrow> j = i \<or> i + 1 \<le> j"
        by arith
      from r g False \<open>i < childCount th\<close>
      have e: "SearchChildpid_from th a i = Some r"
        by (subst SearchChildpid_from.simps) simp
      have "(\<exists>j. i \<le> j \<and> j < childCount th \<and> child_pids th ! nat j = a) \<longrightarrow>
           i \<le> r \<and> r < childCount th \<and> child_pids th ! nat r = a
           \<and> (\<forall>j. i \<le> j \<and> j < r \<longrightarrow> child_pids th ! nat j \<noteq> a)"
      proof
        assume "\<exists>j. i \<le> j \<and> j < childCount th \<and> child_pids th ! nat j = a"
        then obtain j where j: "i \<le> j" "j < childCount th" "child_pids th ! nat j = a"
          by blast
        with False step [of j] have "i + 1 \<le> j" by auto
        with j f have k: "i + 1 \<le> r \<and> r < childCount th \<and> child_pids th ! nat r = a
           \<and> (\<forall>j. i + 1 \<le> j \<and> j < r \<longrightarrow> child_pids th ! nat j \<noteq> a)"
          by blast
        have "\<forall>j. i \<le> j \<and> j < r \<longrightarrow> child_pids th ! nat j \<noteq> a"
        proof (intro allI impI)
          fix j assume b: "i \<le> j \<and> j < r"
          show "child_pids th ! nat j \<noteq> a"
          proof (cases "j = i")
            case True
            with False show ?thesis by simp
          next
            case False
            with b have "i + 1 \<le> j \<and> j < r" by arith
            with k show ?thesis by blast
          qed
        qed
        with k show "i \<le> r \<and> r < childCount th \<and> child_pids th ! nat r = a
           \<and> (\<forall>j. i \<le> j \<and> j < r \<longrightarrow> child_pids th ! nat j \<noteq> a)"
          by simp
      qed
      moreover have "(\<forall>j. i \<le> j \<and> j < childCount th \<longrightarrow> child_pids th ! nat j \<noteq> a) \<longrightarrow> r = - 1"
      proof
        assume h: "\<forall>j. i \<le> j \<and> j < childCount th \<longrightarrow> child_pids th ! nat j \<noteq> a"
        have "\<forall>j. i + 1 \<le> j \<and> j < childCount th \<longrightarrow> child_pids th ! nat j \<noteq> a"
        proof (intro allI impI)
          fix j assume "i + 1 \<le> j \<and> j < childCount th"
          then have "i \<le> j \<and> j < childCount th" by arith
          with h show "child_pids th ! nat j \<noteq> a" by blast
        qed
        with n show "r = - 1" by blast
      qed
      ultimately show ?thesis
        using e by blast
    qed
  qed
qed

lemma SearchChildpid_found:
  assumes "child_tables_ok th" and "recorded_child th a"
  shows "\<exists>i. SearchChildpid th a = Some i \<and> 0 \<le> i \<and> i < childCount th
     \<and> child_pids th ! nat i = a
     \<and> (\<forall>j. 0 \<le> j \<and> j < i \<longrightarrow> child_pids th ! nat j \<noteq> a)"
proof -
  from assms(1) have c: "childCount th \<le> int (length (child_pids th))"
    by (simp add: child_tables_ok_def)
  with assms(2) have "\<exists>j. 0 \<le> j \<and> j < childCount th \<and> child_pids th ! nat j = a"
    by (simp add: recorded_child_iff)
  moreover from SearchChildpid_from_scan [of 0 th a] c
  obtain r where "SearchChildpid_from th a 0 = Some r"
    and "(\<exists>j. 0 \<le> j \<and> j < childCount th \<and> child_pids th ! nat j = a) \<longrightarrow>
           0 \<le> r \<and> r < childCount th \<and> child_pids th ! nat r = a
           \<and> (\<forall>j. 0 \<le> j \<and> j < r \<longrightarrow> child_pids th ! nat j \<noteq> a)"
    by blast
  ultimately show ?thesis
    unfolding SearchChildpid_def by blast
qed

lemma SearchChildpid_absent:
  assumes "child_tables_ok th" and "\<not> recorded_child th a"
  shows "SearchChildpid th a = Some (- 1)"
proof -
  from assms(1) have c: "childCount th \<le> int (length (child_pids th))"
    by (simp add: child_tables_ok_def)
  with assms(2) have "\<forall>j. 0 \<le> j \<and> j < childCount th \<longrightarrow> child_pids th ! nat j \<noteq> a"
    by (simp add: recorded_child_iff)
  moreover from SearchChildpid_from_scan [of 0 th a] c
  obtain r where "SearchChildpid_from th a 0 = Some r"
    and "(\<forall>j. 0 \<le> j \<and> j < childCount th \<longrightarrow> child_pids th ! nat j \<noteq> a) \<longrightarrow> r = - 1"
    by blast
  ultimately show ?thesis
    unfolding SearchChildpid_def by blast
qed

text \<open>
  Claim C3. \<open>SetChildExitCode\<close> on a parent, for an identifier among its recorded
  children: the slot is the first one of the child-identifier list that holds the
  identifier (a linear scan); the exit code is stored in that slot and its exited flag
  set, the other slots being left alone; the parent's join index is cleared and the
  parent appended to the ready queue (status Ready) if its join index is that slot, and
  neither happens otherwise. The interrupt level is as before.
\<close>

theorem SetChildExitCode_records_and_wakes:
  assumes "child_tables_ok (threads s t)"
    and "recorded_child (threads s t) childpid"
  shows "\<exists>i. SearchChildpid (threads s t) childpid = Some i
     \<and> 0 \<le> i \<and> i < childCount (threads s t)
     \<and> child_pids (threads s t) ! nat i = childpid
     \<and> (\<forall>j. 0 \<le> j \<and> j < i \<longrightarrow> child_pids (threads s t) ! nat j \<noteq> childpid)
     \<and> (\<exists>s'. SetChildExitCode s t childpid code = Returned () s'
           \<and> childexitcode (threads s' t) = (childexitcode (threads s t))[nat i := code]
           \<and> childexitcode (threads s' t) ! nat i = code
           \<and> childexitstatus (threads s' t) = (childexitstatus (threads s t))[nat i := True]
           \<and> childexitstatus (threads s' t) ! nat i
           \<and> level s' = level s
           \<and> (waitchildindex (threads s t) = i \<longrightarrow>
                 waitchildindex (threads s' t) = - 1
                 \<and> listOfReadyThreads s' = listOfReadyThreads s @ [t]
                 \<and> status (threads s' t) = READY)
           \<and> (waitchildindex (threads s t) \<noteq> i \<longrightarrow>
                 waitchildindex (threads s' t) = waitchildindex (threads s t)
                 \<and> listOfReadyThreads s' = listOfReadyThreads s
                 \<and> status (threads s' t) = status (threads s t)))"
proof -
  from SearchChildpid_found [OF assms]
  obtain i where i: "SearchChildpid (threads s t) childpid = Some i"
    and b: "0 \<le> i" "i < childCount (threads s t)"
    and m: "child_pids (threads s t) ! nat i = childpid"
    and f: "\<forall>j. 0 \<le> j \<and> j < i \<longrightarrow> child_pids (threads s t) ! nat j \<noteq> childpid"
    by blast
  from assms(1) b have l: "i < int (length (childexitcode (threads s t)))"
    "i < int (length (childexitstatus (threads s t)))"
    by (simp_all add: child_tables_ok_def)
  show ?thesis
  proof (cases "waitchildindex (threads s t) = i")
    case True
    with i b l have "\<exists>s'. SetChildExitCode s t childpid code = Returned () s'
           \<and> childexitcode (threads s' t) = (childexitcode (threads s t))[nat i := code]
           \<and> childexitcode (threads s' t) ! nat i = code
           \<and> childexitstatus (threads s' t) = (childexitstatus (threads s t))[nat i := True]
           \<and> childexitstatus (threads s' t) ! nat i
           \<and> level s' = level s
           \<and> waitchildindex (threads s' t) = - 1
           \<and> listOfReadyThreads s' = listOfReadyThreads s @ [t]
           \<and> status (threads s' t) = READY"
      by (simp add: SetChildExitCode_def arr_set_def SetLevel_def MoveThreadToReadyQueue_def
          upd_thread_def)
    with True i b m f show ?thesis by blast
  next
    case False
    with i b l have "\<exists>s'. SetChildExitCode s t childpid code = Returned () s'
           \<and> childexitcode (threads s' t) = (childexitcode (threads s t))[nat i := code]
           \<and> childexitcode (threads s' t) ! nat i = code
           \<and> childexitstatus (threads s' t) = (childexitstatus (threads s t))[nat i := True]
           \<and> childexitstatus (threads s' t) ! nat i
           \<and> level s' = level s
           \<and> waitchildindex (threads s' t) = waitchildindex (threads s t)
           \<and> listOfReadyThreads s' = listOfReadyThreads s
           \<and> status (threads s' t) = status (threads s t)"
      by (simp add: SetChildExitCode_def arr_set_def upd_thread_def)
    with False i b m f show ?thesis by blast
  qed
qed

lemma joining_root:
  "threads joining_state 1 = rootThread\<lparr>status := BLOCKED, waitchildindex := 0\<rparr>"
  by (simp add: joining_state_def child_running_state_def)

lemma joining_root_ok: "child_tables_ok (threads joining_state 1)"
  unfolding joining_root
  by (simp add: child_tables_ok_def rootThread_def blankThread_def MAXCHILDCOUNT_def)

lemma joining_root_recorded: "recorded_child (threads joining_state 1) 2"
  unfolding joining_root
  by (simp add: recorded_child_def rootThread_def blankThread_def MAXCHILDCOUNT_def
      take_Suc_conv_app_nth)

theorem SetChildExitCode_records_and_wakes_witness:
  "child_tables_ok (threads joining_state 1)
   \<and> recorded_child (threads joining_state 1) 2
   \<and> waitchildindex (threads joining_state 1) = 0
   \<and> listOfReadyThreads joining_state = []
   \<and> SearchChildpid (threads joining_state 1) 2 = Some 0
   \<and> map_option listOfReadyThreads (returned_state (Some (SetChildExitCode joining_state 1 2 7)))
       = Some [1]
   \<and> map_option (waitchildindex_of 1) (returned_state (Some (SetChildExitCode joining_state 1 2 7)))
       = Some (- 1)
   \<and> map_option (status_of 1) (returned_state (Some (SetChildExitCode joining_state 1 2 7)))
       = Some READY"
proof -
  have w: "waitchildindex (threads joining_state 1) = 0"
    unfolding joining_root by simp
  have c: "childCount (threads joining_state 1) = 1"
    unfolding joining_root by (simp add: rootThread_def)
  have q: "listOfReadyThreads joining_state = []"
    by (simp add: joining_state_def)
  from SetChildExitCode_records_and_wakes [OF joining_root_ok joining_root_recorded, of 7]
  obtain i s' where i: "SearchChildpid (threads joining_state 1) 2 = Some i"
    and b: "0 \<le> i" "i < childCount (threads joining_state 1)"
    and r: "SetChildExitCode joining_state 1 2 7 = Returned () s'"
    and k: "waitchildindex (threads joining_state 1) = i \<longrightarrow>
                 waitchildindex (threads s' 1) = - 1
                 \<and> listOfReadyThreads s' = listOfReadyThreads joining_state @ [1]
                 \<and> status (threads s' 1) = READY"
    by blast
  from b c have "i = 0" by simp
  with i r k w q joining_root_ok joining_root_recorded show ?thesis
    by (simp add: waitchildindex_of_def status_of_def)
qed

text \<open>
  Claim C10. \<open>SetChildExitCode\<close> does not validate its argument. If the identifier
  is among the recorded children (slots 0 to \<open>childCount - 1\<close>), the scan yields a slot
  inside the child tables and both writes are within bounds. If it is not, the scan
  yields -1, both writes index the arrays out of bounds, and the behaviour is undefined.
\<close>

theorem SetChildExitCode_in_bounds_iff_recorded:
  assumes "child_tables_ok (threads s t)"
  shows "(recorded_child (threads s t) childpid \<longrightarrow>
           (\<exists>i s'. SearchChildpid (threads s t) childpid = Some i
              \<and> 0 \<le> i \<and> i < int MAXCHILDCOUNT
              \<and> arr_set (childexitcode (threads s t)) i code \<noteq> None
              \<and> arr_set (childexitstatus (threads s t)) i True \<noteq> None
              \<and> SetChildExitCode s t childpid code = Returned () s'))
     \<and> (\<not> recorded_child (threads s t) childpid \<longrightarrow>
           SearchChildpid (threads s t) childpid = Some (- 1)
           \<and> arr_set (childexitcode (threads s t)) (- 1) code = None
           \<and> arr_set (childexitstatus (threads s t)) (- 1) True = None
           \<and> SetChildExitCode s t childpid code = Undefined)"
proof (rule conjI; rule impI)
  assume r: "recorded_child (threads s t) childpid"
  from SearchChildpid_found [OF assms r]
  obtain i where i: "SearchChildpid (threads s t) childpid = Some i"
    and b: "0 \<le> i" "i < childCount (threads s t)"
    by blast
  from assms b have l: "i < int MAXCHILDCOUNT"
    "i < int (length (childexitcode (threads s t)))"
    "i < int (length (childexitstatus (threads s t)))"
    by (simp_all add: child_tables_ok_def)
  with i b have "\<exists>s'. SetChildExitCode s t childpid code = Returned () s'"
    by (simp add: SetChildExitCode_def arr_set_def SetLevel_def Let_def)
  with i b l show "\<exists>i s'. SearchChildpid (threads s t) childpid = Some i
              \<and> 0 \<le> i \<and> i < int MAXCHILDCOUNT
              \<and> arr_set (childexitcode (threads s t)) i code \<noteq> None
              \<and> arr_set (childexitstatus (threads s t)) i True \<noteq> None
              \<and> SetChildExitCode s t childpid code = Returned () s'"
    by (auto simp: arr_set_def)
next
  assume r: "\<not> recorded_child (threads s t) childpid"
  from SearchChildpid_absent [OF assms r]
  show "SearchChildpid (threads s t) childpid = Some (- 1)
           \<and> arr_set (childexitcode (threads s t)) (- 1) code = None
           \<and> arr_set (childexitstatus (threads s t)) (- 1) True = None
           \<and> SetChildExitCode s t childpid code = Undefined"
    by (simp add: SetChildExitCode_def arr_set_def)
qed

lemma family_root: "threads family_state 1 = rootThread"
  by (simp add: family_state_def)

theorem SetChildExitCode_in_bounds_iff_recorded_witness:
  "child_tables_ok (threads family_state 1)
   \<and> recorded_child (threads family_state 1) 2
   \<and> returned_state (Some (SetChildExitCode family_state 1 2 7)) \<noteq> None
   \<and> \<not> recorded_child (threads family_state 1) 5
   \<and> SearchChildpid (threads family_state 1) 5 = Some (- 1)
   \<and> SetChildExitCode family_state 1 5 7 = Undefined"
proof -
  have a: "child_tables_ok (threads family_state 1)"
    unfolding family_root
    by (simp add: child_tables_ok_def rootThread_def blankThread_def MAXCHILDCOUNT_def)
  have b: "recorded_child (threads family_state 1) 2"
    unfolding family_root
    by (simp add: recorded_child_def rootThread_def blankThread_def MAXCHILDCOUNT_def
        take_Suc_conv_app_nth)
  have c: "\<not> recorded_child (threads family_state 1) 5"
    unfolding family_root
    by (simp add: recorded_child_def rootThread_def blankThread_def MAXCHILDCOUNT_def
        take_Suc_conv_app_nth)
  from SetChildExitCode_in_bounds_iff_recorded [OF a, of 2 7] b
  obtain s' where "SetChildExitCode family_state 1 2 7 = Returned () s'"
    by blast
  moreover from SetChildExitCode_in_bounds_iff_recorded [OF a, of 5 7] c
  have "SearchChildpid (threads family_state 1) 5 = Some (- 1)
     \<and> SetChildExitCode family_state 1 5 7 = Undefined"
    by blast
  ultimately show ?thesis
    using a b c by simp
qed

section \<open>The initial stack and saved context\<close>

text \<open>
  Claim C8, as amended. For every thread, procedure and argument, on each of the four
  architectures and for a stack size that holds the architecture's initial frame (96
  words suffice), \<open>CreateThreadStack\<close> allocates a stack of \<open>StackSize\<close> words,
  writes the fencepost word \<open>0xdeadbeef\<close> at the end of the stack toward which it
  grows (the last word where stacks grow upward, the first word elsewhere), sets the
  initial stack pointer near the opposite end, and changes exactly five slots of the
  saved context: the resume program counter is \<open>ThreadRoot\<close>, the startup program
  counter is \<open>InterruptEnable\<close>, then the procedure, its argument, and
  \<open>ThreadFinish\<close> as the routine to run when the procedure is done.
\<close>

theorem CreateThreadStack_builds_context:
  assumes "96 \<le> StackSize"
  shows "\<exists>s' st sp. CreateThreadStack h StackSize garbage s t func arg = Returned () s'
     \<and> stack (threads s' t) = Some st
     \<and> length st = StackSize
     \<and> st ! stack_limit h StackSize = Val STACK_FENCEPOST
     \<and> STACK_FENCEPOST = 0xdeadbeef
     \<and> stackTop (threads s' t) = Some sp
     \<and> (if grows_upward h then sp = 16 else int StackSize - 96 \<le> sp \<and> sp < int StackSize)
     \<and> machineState (threads s' t) = (machineState (threads s t))
          (PCState := Code ThreadRoot,
           StartupPCState := Code InterruptEnable,
           InitialPCState := Code func,
           InitialArgState := Val arg,
           WhenDonePCState := Code ThreadFinish)
     \<and> machineState (threads s' t) PCState = Code ThreadRoot
     \<and> machineState (threads s' t) StartupPCState = Code InterruptEnable
     \<and> machineState (threads s' t) InitialPCState = Code func
     \<and> machineState (threads s' t) InitialArgState = Val arg
     \<and> machineState (threads s' t) WhenDonePCState = Code ThreadFinish"
proof (cases h)
  case HOST_SNAKE
  with assms show ?thesis
    by (simp add: CreateThreadStack_def init_stack_def AllocBoundedArray_def arr_set_def
        ptr_ok_def stack_limit_def grows_upward_def STACK_FENCEPOST_def nat_diff_distrib)
next
  case HOST_SPARC
  with assms show ?thesis
    by (simp add: CreateThreadStack_def init_stack_def AllocBoundedArray_def arr_set_def
        ptr_ok_def stack_limit_def grows_upward_def STACK_FENCEPOST_def)
next
  case HOST_MIPS
  with assms show ?thesis
    by (simp add: CreateThreadStack_def init_stack_def AllocBoundedArray_def arr_set_def
        ptr_ok_def stack_limit_def grows_upward_def STACK_FENCEPOST_def)
next
  case HOST_i386
  with assms show ?thesis
    by (simp add: CreateThreadStack_def init_stack_def AllocBoundedArray_def arr_set_def
        ptr_ok_def stack_limit_def grows_upward_def STACK_FENCEPOST_def)
qed

theorem CreateThreadStack_builds_context_witness:
  "(96::nat) \<le> 96
   \<and> Option.bind (returned_state (Some
         (CreateThreadStack HOST_i386 96 zero_memory boot_state 1 (Func 0) 7))) (stack_cell 1 0)
       = Some (Val 0xdeadbeef)
   \<and> map_option (context_slot 1 PCState) (returned_state (Some
         (CreateThreadStack HOST_i386 96 zero_memory boot_state 1 (Func 0) 7)))
       = Some (Code ThreadRoot)
   \<and> map_option (context_slot 1 InitialArgState) (returned_state (Some
         (CreateThreadStack HOST_i386 96 zero_memory boot_state 1 (Func 0) 7)))
       = Some (Val 7)
   \<and> map_option (context_slot 1 (OtherState 0)) (returned_state (Some
         (CreateThreadStack HOST_i386 96 zero_memory boot_state 1 (Func 0) 7)))
       = Some (Val 0)"
proof -
  have h: "(96::nat) \<le> 96"
    by simp
  from CreateThreadStack_builds_context [OF h, of HOST_i386 zero_memory boot_state 1 "Func 0" 7]
  obtain s' st where
    "CreateThreadStack HOST_i386 96 zero_memory boot_state 1 (Func 0) 7 = Returned () s'"
    and "stack (threads s' 1) = Some st" and "length st = 96"
    and "st ! stack_limit HOST_i386 96 = Val STACK_FENCEPOST"
    and "machineState (threads s' 1) = (machineState (threads boot_state 1))
          (PCState := Code ThreadRoot,
           StartupPCState := Code InterruptEnable,
           InitialPCState := Code (Func 0),
           InitialArgState := Val 7,
           WhenDonePCState := Code ThreadFinish)"
    by blast
  then show ?thesis
    by (simp add: stack_cell_def context_slot_def arr_get_def stack_limit_def grows_upward_def
        STACK_FENCEPOST_def boot_state_def blankThread_def)
qed

text \<open>
  Claim C8 as stated fails in where the fencepost is. On \<open>HOST_MIPS\<close> the stack
  grows from high addresses to low addresses and the initial stack pointer is 4 words
  below the high end; the end opposite to the direction of growth is the last word, which
  keeps what the memory held, and the fencepost is in the first word.
\<close>

theorem CreateThreadStack_fencepost_at_limit:
  "\<not> grows_upward HOST_MIPS
   \<and> stack_origin HOST_MIPS 4096 = 4095
   \<and> map_option (stackTop_of 1) (returned_state (Some
         (CreateThreadStack HOST_MIPS 4096 zero_memory boot_state 1 (Func 0) 7)))
       = Some (Some 4092)
   \<and> Option.bind (returned_state (Some
         (CreateThreadStack HOST_MIPS 4096 zero_memory boot_state 1 (Func 0) 7)))
         (stack_cell 1 4095)
       = Some (Val 0)
   \<and> Val 0 \<noteq> Val STACK_FENCEPOST
   \<and> Option.bind (returned_state (Some
         (CreateThreadStack HOST_MIPS 4096 zero_memory boot_state 1 (Func 0) 7)))
         (stack_cell 1 0)
       = Some (Val STACK_FENCEPOST)"
  by (simp add: CreateThreadStack_def init_stack_def AllocBoundedArray_def arr_set_def
      arr_get_def ptr_ok_def stack_origin_def grows_upward_def STACK_FENCEPOST_def
      stack_cell_def stackTop_of_def zero_memory_def)

section \<open>Process identifiers\<close>

lemma NachOSThread_ctor_step:
  assumes "availpid s < 2147483647"
    and "availpid s \<noteq> 1 \<longrightarrow> cur \<noteq> None"
  shows "\<exists>s1. NachOSThread_ctor (s\<lparr>currentThread := cur\<rparr>) a nm = Returned () s1
     \<and> availpid s1 = availpid s + 1
     \<and> pid (threads s1 a) = availpid s
     \<and> (availpid s = 1 \<longrightarrow> ppid (threads s1 a) = 0 \<and> parentthread (threads s1 a) = None)
     \<and> (availpid s \<noteq> 1 \<longrightarrow> parentthread (threads s1 a) = cur
           \<and> (\<forall>c. cur = Some c \<longrightarrow> ppid (threads s1 a) = pid (threads s1 c)
                  \<and> (c \<noteq> a \<longrightarrow> pid (threads s1 c) = pid (threads s c))))"
proof (cases "availpid s = 1")
  case True
  with assms show ?thesis
    by (simp add: NachOSThread_ctor_def Let_def upd_thread_def)
next
  case False
  with assms obtain c where c: "cur = Some c" by auto
  with False assms show ?thesis
    by (simp add: NachOSThread_ctor_def Let_def upd_thread_def)
qed

lemma construct_all_pids:
  assumes "availpid s + int (length steps) \<le> 2147483647"
    and "\<forall>i<length steps. availpid s + int i \<noteq> 1 \<longrightarrow> fst (steps ! i) \<noteq> None"
  shows "\<exists>ss s'. construct_all s steps = Returned ss s' \<and> length ss = length steps
     \<and> (\<forall>i<length steps.
           pid (threads (ss ! i) (fst (snd (steps ! i)))) = availpid s + int i
         \<and> (availpid s + int i = 1 \<longrightarrow>
               ppid (threads (ss ! i) (fst (snd (steps ! i)))) = 0
             \<and> parentthread (threads (ss ! i) (fst (snd (steps ! i)))) = None)
         \<and> (availpid s + int i \<noteq> 1 \<longrightarrow>
               parentthread (threads (ss ! i) (fst (snd (steps ! i)))) = fst (steps ! i)
             \<and> (\<forall>c. fst (steps ! i) = Some c \<longrightarrow>
                    ppid (threads (ss ! i) (fst (snd (steps ! i)))) = pid (threads (ss ! i) c)
                  \<and> (c \<noteq> fst (snd (steps ! i)) \<longrightarrow>
                        pid (threads (ss ! i) c) = pid (threads (state_before s ss i) c)))))"
  using assms
proof (induction steps arbitrary: s)
  case Nil
  then show ?case by simp
next
  case (Cons st rest)
  obtain cur a nm where st: "st = (cur, a, nm)"
    by (cases st)
  from Cons.prems(1) have lt: "availpid s < 2147483647"
    by simp
  from Cons.prems(2) st have cu: "availpid s \<noteq> 1 \<longrightarrow> cur \<noteq> None"
    by force
  from NachOSThread_ctor_step [OF lt cu, of a nm]
  obtain s1 where r1: "NachOSThread_ctor (s\<lparr>currentThread := cur\<rparr>) a nm = Returned () s1"
    and av: "availpid s1 = availpid s + 1"
    and p0: "pid (threads s1 a) = availpid s"
    and f0: "availpid s = 1 \<longrightarrow> ppid (threads s1 a) = 0 \<and> parentthread (threads s1 a) = None"
    and l0: "availpid s \<noteq> 1 \<longrightarrow> parentthread (threads s1 a) = cur
           \<and> (\<forall>c. cur = Some c \<longrightarrow> ppid (threads s1 a) = pid (threads s1 c)
                  \<and> (c \<noteq> a \<longrightarrow> pid (threads s1 c) = pid (threads s c)))"
    by blast
  from Cons.prems(1) av have b1: "availpid s1 + int (length rest) \<le> 2147483647"
    by simp
  have c1: "\<forall>i<length rest. availpid s1 + int i \<noteq> 1 \<longrightarrow> fst (rest ! i) \<noteq> None"
  proof (intro allI impI)
    fix i assume i: "i < length rest" and n: "availpid s1 + int i \<noteq> 1"
    from i have "Suc i < length (st # rest)" by simp
    moreover from n av have "availpid s + int (Suc i) \<noteq> 1" by simp
    ultimately have "fst ((st # rest) ! Suc i) \<noteq> None"
      using Cons.prems(2) by blast
    then show "fst (rest ! i) \<noteq> None" by simp
  qed
  from Cons.IH [OF b1 c1]
  obtain ss s' where r2: "construct_all s1 rest = Returned ss s'"
    and len: "length ss = length rest"
    and ih: "\<forall>i<length rest.
           pid (threads (ss ! i) (fst (snd (rest ! i)))) = availpid s1 + int i
         \<and> (availpid s1 + int i = 1 \<longrightarrow>
               ppid (threads (ss ! i) (fst (snd (rest ! i)))) = 0
             \<and> parentthread (threads (ss ! i) (fst (snd (rest ! i)))) = None)
         \<and> (availpid s1 + int i \<noteq> 1 \<longrightarrow>
               parentthread (threads (ss ! i) (fst (snd (rest ! i)))) = fst (rest ! i)
             \<and> (\<forall>c. fst (rest ! i) = Some c \<longrightarrow>
                    ppid (threads (ss ! i) (fst (snd (rest ! i)))) = pid (threads (ss ! i) c)
                  \<and> (c \<noteq> fst (snd (rest ! i)) \<longrightarrow>
                        pid (threads (ss ! i) c) = pid (threads (state_before s1 ss i) c))))"
    by blast
  from r1 r2 st have res: "construct_all s (st # rest) = Returned (s1 # ss) s'"
    by simp
  have sb: "\<And>i. state_before s (s1 # ss) (Suc i) = state_before s1 ss i"
    by (simp add: state_before_def nth_Cons split: nat.split)
  have "\<forall>i<length (st # rest).
           pid (threads ((s1 # ss) ! i) (fst (snd ((st # rest) ! i)))) = availpid s + int i
         \<and> (availpid s + int i = 1 \<longrightarrow>
               ppid (threads ((s1 # ss) ! i) (fst (snd ((st # rest) ! i)))) = 0
             \<and> parentthread (threads ((s1 # ss) ! i) (fst (snd ((st # rest) ! i)))) = None)
         \<and> (availpid s + int i \<noteq> 1 \<longrightarrow>
               parentthread (threads ((s1 # ss) ! i) (fst (snd ((st # rest) ! i))))
                 = fst ((st # rest) ! i)
             \<and> (\<forall>c. fst ((st # rest) ! i) = Some c \<longrightarrow>
                    ppid (threads ((s1 # ss) ! i) (fst (snd ((st # rest) ! i))))
                      = pid (threads ((s1 # ss) ! i) c)
                  \<and> (c \<noteq> fst (snd ((st # rest) ! i)) \<longrightarrow>
                        pid (threads ((s1 # ss) ! i) c)
                          = pid (threads (state_before s (s1 # ss) i) c))))"
  proof (intro allI impI)
    fix i assume i: "i < length (st # rest)"
    show "pid (threads ((s1 # ss) ! i) (fst (snd ((st # rest) ! i)))) = availpid s + int i
         \<and> (availpid s + int i = 1 \<longrightarrow>
               ppid (threads ((s1 # ss) ! i) (fst (snd ((st # rest) ! i)))) = 0
             \<and> parentthread (threads ((s1 # ss) ! i) (fst (snd ((st # rest) ! i)))) = None)
         \<and> (availpid s + int i \<noteq> 1 \<longrightarrow>
               parentthread (threads ((s1 # ss) ! i) (fst (snd ((st # rest) ! i))))
                 = fst ((st # rest) ! i)
             \<and> (\<forall>c. fst ((st # rest) ! i) = Some c \<longrightarrow>
                    ppid (threads ((s1 # ss) ! i) (fst (snd ((st # rest) ! i))))
                      = pid (threads ((s1 # ss) ! i) c)
                  \<and> (c \<noteq> fst (snd ((st # rest) ! i)) \<longrightarrow>
                        pid (threads ((s1 # ss) ! i) c)
                          = pid (threads (state_before s (s1 # ss) i) c))))"
    proof (cases i)
      case 0
      with st p0 f0 l0 show ?thesis
        by (simp add: state_before_def)
    next
      case (Suc m)
      with i have m: "m < length rest" by simp
      from ih m have "pid (threads (ss ! m) (fst (snd (rest ! m)))) = availpid s1 + int m
         \<and> (availpid s1 + int m = 1 \<longrightarrow>
               ppid (threads (ss ! m) (fst (snd (rest ! m)))) = 0
             \<and> parentthread (threads (ss ! m) (fst (snd (rest ! m)))) = None)
         \<and> (availpid s1 + int m \<noteq> 1 \<longrightarrow>
               parentthread (threads (ss ! m) (fst (snd (rest ! m)))) = fst (rest ! m)
             \<and> (\<forall>c. fst (rest ! m) = Some c \<longrightarrow>
                    ppid (threads (ss ! m) (fst (snd (rest ! m)))) = pid (threads (ss ! m) c)
                  \<and> (c \<noteq> fst (snd (rest ! m)) \<longrightarrow>
                        pid (threads (ss ! m) c) = pid (threads (state_before s1 ss m) c))))"
        by blast
      moreover have "availpid s1 + int m = availpid s + int (Suc m)"
        using av by simp
      ultimately show ?thesis
        unfolding Suc sb by simp
    qed
  qed
  with res len show ?case
    by simp
qed

text \<open>
  Claim C9. From a state in which \<open>availpid\<close> is 1, every sequence of fewer than
  \<open>2^31 - 1\<close> thread constructions, each but the first made while some thread is
  current, succeeds; the \<open>i\<close>-th thread made (counting from 0) gets pid \<open>i + 1\<close>,
  so each pid is strictly greater than every pid assigned before and the first is 1; the
  first thread has ppid 0 and no parent pointer; every later thread has the thread
  current at its construction as parent pointer and that thread's pid as ppid.
\<close>

theorem pids_assigned_in_order:
  assumes "availpid s = 1"
    and "int (length steps) < 2147483647"
    and "\<forall>i. 0 < i \<and> i < length steps \<longrightarrow> fst (steps ! i) \<noteq> None"
  shows "\<exists>ss s'. construct_all s steps = Returned ss s' \<and> length ss = length steps
     \<and> (\<forall>i<length steps. pid (threads (ss ! i) (fst (snd (steps ! i)))) = int i + 1)
     \<and> (\<forall>i j. i < j \<and> j < length steps \<longrightarrow>
           pid (threads (ss ! i) (fst (snd (steps ! i))))
             < pid (threads (ss ! j) (fst (snd (steps ! j)))))
     \<and> (steps \<noteq> [] \<longrightarrow>
           ppid (threads (ss ! 0) (fst (snd (steps ! 0)))) = 0
         \<and> parentthread (threads (ss ! 0) (fst (snd (steps ! 0)))) = None)
     \<and> (\<forall>i. 0 < i \<and> i < length steps \<longrightarrow>
           parentthread (threads (ss ! i) (fst (snd (steps ! i)))) = fst (steps ! i)
         \<and> (\<forall>c. fst (steps ! i) = Some c \<longrightarrow>
                ppid (threads (ss ! i) (fst (snd (steps ! i)))) = pid (threads (ss ! i) c)
              \<and> (c \<noteq> fst (snd (steps ! i)) \<longrightarrow>
                    pid (threads (ss ! i) c) = pid (threads (state_before s ss i) c))))"
proof -
  from assms(1,2) have b: "availpid s + int (length steps) \<le> 2147483647"
    by simp
  from assms(1,3) have c: "\<forall>i<length steps. availpid s + int i \<noteq> 1 \<longrightarrow> fst (steps ! i) \<noteq> None"
    by simp
  from construct_all_pids [OF b c]
  obtain ss s' where r: "construct_all s steps = Returned ss s'"
    and len: "length ss = length steps"
    and all: "\<forall>i<length steps.
           pid (threads (ss ! i) (fst (snd (steps ! i)))) = availpid s + int i
         \<and> (availpid s + int i = 1 \<longrightarrow>
               ppid (threads (ss ! i) (fst (snd (steps ! i)))) = 0
             \<and> parentthread (threads (ss ! i) (fst (snd (steps ! i)))) = None)
         \<and> (availpid s + int i \<noteq> 1 \<longrightarrow>
               parentthread (threads (ss ! i) (fst (snd (steps ! i)))) = fst (steps ! i)
             \<and> (\<forall>c. fst (steps ! i) = Some c \<longrightarrow>
                    ppid (threads (ss ! i) (fst (snd (steps ! i)))) = pid (threads (ss ! i) c)
                  \<and> (c \<noteq> fst (snd (steps ! i)) \<longrightarrow>
                        pid (threads (ss ! i) c) = pid (threads (state_before s ss i) c))))"
    by blast
  have p: "\<forall>i<length steps. pid (threads (ss ! i) (fst (snd (steps ! i)))) = int i + 1"
    using all assms(1) by simp
  have o: "\<forall>i j. i < j \<and> j < length steps \<longrightarrow>
           pid (threads (ss ! i) (fst (snd (steps ! i))))
             < pid (threads (ss ! j) (fst (snd (steps ! j))))"
  proof (intro allI impI)
    fix i j assume ij: "i < j \<and> j < length steps"
    then have "i < length steps" by simp
    with p ij show "pid (threads (ss ! i) (fst (snd (steps ! i))))
             < pid (threads (ss ! j) (fst (snd (steps ! j))))"
      by simp
  qed
  have f: "steps \<noteq> [] \<longrightarrow>
           ppid (threads (ss ! 0) (fst (snd (steps ! 0)))) = 0
         \<and> parentthread (threads (ss ! 0) (fst (snd (steps ! 0)))) = None"
  proof
    assume "steps \<noteq> []"
    then have "0 < length steps" by simp
    with all assms(1) show "ppid (threads (ss ! 0) (fst (snd (steps ! 0)))) = 0
         \<and> parentthread (threads (ss ! 0) (fst (snd (steps ! 0)))) = None"
      by force
  qed
  have l: "\<forall>i. 0 < i \<and> i < length steps \<longrightarrow>
           parentthread (threads (ss ! i) (fst (snd (steps ! i)))) = fst (steps ! i)
         \<and> (\<forall>c. fst (steps ! i) = Some c \<longrightarrow>
                ppid (threads (ss ! i) (fst (snd (steps ! i)))) = pid (threads (ss ! i) c)
              \<and> (c \<noteq> fst (snd (steps ! i)) \<longrightarrow>
                    pid (threads (ss ! i) c) = pid (threads (state_before s ss i) c)))"
  proof (intro allI impI)
    fix i assume i: "0 < i \<and> i < length steps"
    with assms(1) have "availpid s + int i \<noteq> 1" by simp
    with all i show "parentthread (threads (ss ! i) (fst (snd (steps ! i)))) = fst (steps ! i)
         \<and> (\<forall>c. fst (steps ! i) = Some c \<longrightarrow>
                ppid (threads (ss ! i) (fst (snd (steps ! i)))) = pid (threads (ss ! i) c)
              \<and> (c \<noteq> fst (snd (steps ! i)) \<longrightarrow>
                    pid (threads (ss ! i) c) = pid (threads (state_before s ss i) c)))"
      by blast
  qed
  from r len p o f l show ?thesis
    by blast
qed

theorem pids_assigned_in_order_witness:
  "availpid boot_state = 1
   \<and> int (length three_steps) < 2147483647
   \<and> fst (three_steps ! 1) \<noteq> None \<and> fst (three_steps ! 2) \<noteq> None
   \<and> map_option (pids_of_run three_steps) (returned_value (construct_all boot_state three_steps))
       = Some [1, 2, 3]
   \<and> map_option (ppids_of_run three_steps) (returned_value (construct_all boot_state three_steps))
       = Some [0, 1, 2]"
proof -
  have a: "availpid boot_state = 1"
    by (simp add: boot_state_def)
  have b: "int (length three_steps) < 2147483647"
    by (simp add: three_steps_def)
  have n: "length three_steps = 3"
    by (simp add: three_steps_def)
  have c: "\<forall>i. 0 < i \<and> i < length three_steps \<longrightarrow> fst (three_steps ! i) \<noteq> None"
  proof (intro allI impI)
    fix i assume "0 < i \<and> i < length three_steps"
    with n have "i = 1 \<or> i = 2" by arith
    then show "fst (three_steps ! i) \<noteq> None"
      by (auto simp: three_steps_def)
  qed
  from pids_assigned_in_order [OF a b c]
  obtain ss s' where r: "construct_all boot_state three_steps = Returned ss s'"
    and len: "length ss = length three_steps"
    and p: "\<forall>i<length three_steps.
        pid (threads (ss ! i) (fst (snd (three_steps ! i)))) = int i + 1"
    and f: "three_steps \<noteq> [] \<longrightarrow>
           ppid (threads (ss ! 0) (fst (snd (three_steps ! 0)))) = 0"
    and l: "\<forall>i. 0 < i \<and> i < length three_steps \<longrightarrow>
           (\<forall>c. fst (three_steps ! i) = Some c \<longrightarrow>
                ppid (threads (ss ! i) (fst (snd (three_steps ! i)))) = pid (threads (ss ! i) c)
              \<and> (c \<noteq> fst (snd (three_steps ! i)) \<longrightarrow>
                    pid (threads (ss ! i) c) = pid (threads (state_before boot_state ss i) c)))"
    by blast
  from len n obtain x y z where ss: "ss = [x, y, z]"
    by (auto simp: length_Suc_conv numeral_3_eq_3)
  from p n have p0: "pid (threads x 1) = 1"
    and p1: "pid (threads y 2) = 2" and p2: "pid (threads z 3) = 3"
    by (auto simp: ss three_steps_def)
  from f have q0: "ppid (threads x 1) = 0"
    by (simp add: ss three_steps_def)
  from l [rule_format, of 1 1] n have q1: "ppid (threads y 2) = pid (threads x 1)"
    by (simp add: ss three_steps_def state_before_def)
  from l [rule_format, of 2 2] n have q2: "ppid (threads z 3) = pid (threads y 2)"
    by (simp add: ss three_steps_def state_before_def)
  from p0 p1 p2 q0 q1 q2 a b show ?thesis
    unfolding r by (simp add: ss three_steps_def pid_of_def ppid_of_def)
qed

end
